theory Spec2Isabelle
  imports Main "HOL-Library.Sublist"
begin

section \<open>Strings\<close>

text \<open>
  A JavaScript string is modelled as a \<^typ>\<open>string\<close>, one \<^typ>\<open>char\<close> per character.
  The builder only concatenates strings and looks for the two ASCII characters
  backslash and double quote, and \<^verbatim>\<open>JSON.stringify\<close> escapes only characters below 128.
\<close>

abbreviation bslash :: char where "bslash \<equiv> CHR 0x5C"
abbreviation dquote :: char where "dquote \<equiv> CHR 0x22"
abbreviation newline :: char where "newline \<equiv> CHR 0x0A"

text \<open>
  \<^verbatim>\<open>s.replace(/c/g, r)\<close> for a pattern that is one literal character: the string is
  scanned from the left, every occurrence of the character is replaced by \<open>r\<close>, and
  the replacement text is not scanned again.
\<close>

fun replace_all :: "char \<Rightarrow> string \<Rightarrow> string \<Rightarrow> string" where
  "replace_all c r [] = []"
| "replace_all c r (x # xs) =
     (if x = c then r @ replace_all c r xs else x # replace_all c r xs)"

text \<open>
  \<^verbatim>\<open>return s.replace(/\\/g, "\\\\").replace(/"/g, '\\"');\<close>
\<close>

definition escapeYaml :: "string \<Rightarrow> string" where
  "escapeYaml s = replace_all dquote [bslash, dquote] (replace_all bslash [bslash, bslash] s)"

text \<open>
  The escaping as the specification words it, in two separate passes over the text: first
  every backslash is doubled, then every double quote gets a backslash in front.
\<close>

definition double_backslashes :: "string \<Rightarrow> string" where
  "double_backslashes s = concat (map (\<lambda>c. if c = bslash then [bslash, bslash] else [c]) s)"

definition backslash_quotes :: "string \<Rightarrow> string" where
  "backslash_quotes s = concat (map (\<lambda>c. if c = dquote then [bslash, dquote] else [c]) s)"

text \<open>The same passes in the other order, and the escaping in one single pass.\<close>

definition quotes_then_backslashes :: "string \<Rightarrow> string" where
  "quotes_then_backslashes s = double_backslashes (backslash_quotes s)"

definition escape_one_pass :: "string \<Rightarrow> string" where
  "escape_one_pass s =
     concat (map (\<lambda>c. if c = bslash then [bslash, bslash]
                       else if c = dquote then [bslash, dquote] else [c]) s)"

section \<open>JavaScript values\<close>

text \<open>
  \<^verbatim>\<open>params?: any\<close>: the parameters of a step are any JavaScript value. The model has
  \<open>undefined\<close>, \<open>null\<close>, booleans, numbers, BigInts, strings, arrays and plain objects.
  An object is the list of its own enumerable properties in the order
  \<^verbatim>\<open>Object.entries\<close> yields them. Values with sharing or cycles, functions, symbols and
  objects with a \<^verbatim>\<open>toJSON\<close> method are outside the model.

  A number is an IEEE-754 double. The program never computes with the numbers it renders;
  it only turns them into text. A finite number is therefore given by the text that
  \<^verbatim>\<open>Number.prototype.toString\<close> yields for it (\<open>42\<close>, \<open>3.14\<close>, \<open>1e+21\<close>).
\<close>

datatype jsnum = Finite string | NaN | PosInfinity | NegInfinity

datatype jsval =
    JUndefined
  | JNull
  | JBool bool
  | JNum jsnum
  | JBigInt int
  | JStr string
  | JArr "jsval list"
  | JObj "(string \<times> jsval) list"

datatype error = TypeError | RangeError | SyntaxError | SystemError string

text \<open>\<^verbatim>\<open>String(n)\<close> and \<^verbatim>\<open>`${n}`\<close> for a number and for a boolean.\<close>

fun Number_toString :: "jsnum \<Rightarrow> string" where
  "Number_toString (Finite s) = s"
| "Number_toString NaN = ''NaN''"
| "Number_toString PosInfinity = ''Infinity''"
| "Number_toString NegInfinity = ''-Infinity''"

definition Boolean_toString :: "bool \<Rightarrow> string" where
  "Boolean_toString b = (if b then ''true'' else ''false'')"

text \<open>The decimal numeral of an array index.\<close>

definition digit :: "nat \<Rightarrow> char" where
  "digit d = ''0123456789'' ! d"

fun show_nat :: "nat \<Rightarrow> string" where
  "show_nat n = (if n < 10 then [digit n] else show_nat (n div 10) @ [digit (n mod 10)])"

declare show_nat.simps [simp del]

text \<open>
  \<^verbatim>\<open>Object.entries(v)\<close> for a value that is an object: the properties of a plain object,
  and for an array its elements under their indices. The builder calls it only where
  \<^verbatim>\<open>typeof v === "object"\<close> and \<open>v\<close> is not \<open>null\<close>.
\<close>

fun index_from :: "nat \<Rightarrow> jsval list \<Rightarrow> (string \<times> jsval) list" where
  "index_from i [] = []"
| "index_from i (x # xs) = (show_nat i, x) # index_from (Suc i) xs"

fun Object_entries :: "jsval \<Rightarrow> (string \<times> jsval) list" where
  "Object_entries (JObj kvs) = kvs"
| "Object_entries (JArr xs) = index_from 0 xs"
| "Object_entries (JStr s) = index_from 0 (map (\<lambda>c. JStr [c]) s)"
| "Object_entries _ = []"

text \<open>\<^verbatim>\<open>xs.join(sep)\<close> on an array of strings.\<close>

fun join :: "string \<Rightarrow> string list \<Rightarrow> string" where
  "join sep [] = []"
| "join sep [x] = x"
| "join sep (x # y # ys) = x @ sep @ join sep (y # ys)"

subsection \<open>JSON.stringify\<close>

text \<open>
  \<^verbatim>\<open>JSON.stringify(v)\<close> with one argument, as ECMAScript defines it on the values of the
  model. It returns a string or \<open>undefined\<close> (\<open>None\<close>), and throws a
  \<open>TypeError\<close> when it meets a BigInt. Inside an array \<open>undefined\<close> is written
  \<open>null\<close>; inside an object a property whose value is \<open>undefined\<close> is left out.

  The serialization recurses into arrays and objects, and the engine's call stack is
  finite: the first argument is the number of levels of arrays and objects, one inside
  the other, that the stack still allows. At a level beyond it the engine throws a
  \<open>RangeError\<close>. The values are visited in order, so the first exception met is the
  one thrown.
\<close>

definition hex_digit :: "nat \<Rightarrow> char" where
  "hex_digit d = ''0123456789abcdef'' ! d"

definition quote_char :: "char \<Rightarrow> string" where
  "quote_char c =
     (if c = dquote then [bslash, dquote]
      else if c = bslash then [bslash, bslash]
      else if c = CHR 0x08 then [bslash, CHR ''b'']
      else if c = CHR 0x09 then [bslash, CHR ''t'']
      else if c = CHR 0x0A then [bslash, CHR ''n'']
      else if c = CHR 0x0C then [bslash, CHR ''f'']
      else if c = CHR 0x0D then [bslash, CHR ''r'']
      else if of_char c < (32 :: nat)
        then [bslash, CHR ''u'', CHR ''0'', CHR ''0'',
              hex_digit (of_char c div 16), hex_digit (of_char c mod 16)]
      else [c])"

definition QuoteJSONString :: "string \<Rightarrow> string" where
  "QuoteJSONString s = [dquote] @ concat (map quote_char s) @ [dquote]"

fun sequence :: "(error + 'a) list \<Rightarrow> error + 'a list" where
  "sequence [] = Inr []"
| "sequence (Inl e # rs) = Inl e"
| "sequence (Inr x # rs) = (case sequence rs of Inl e \<Rightarrow> Inl e | Inr xs \<Rightarrow> Inr (x # xs))"

fun JSON_stringify :: "nat \<Rightarrow> jsval \<Rightarrow> error + string option" where
  "JSON_stringify stack JUndefined = Inr None"
| "JSON_stringify stack JNull = Inr (Some ''null'')"
| "JSON_stringify stack (JBool b) = Inr (Some (Boolean_toString b))"
| "JSON_stringify stack (JNum (Finite s)) = Inr (Some s)"
| "JSON_stringify stack (JNum _) = Inr (Some ''null'')"
| "JSON_stringify stack (JBigInt i) = Inl TypeError"
| "JSON_stringify stack (JStr s) = Inr (Some (QuoteJSONString s))"
| "JSON_stringify stack (JArr xs) =
     (if stack = 0 then Inl RangeError
      else case sequence (map (JSON_stringify (stack - 1)) xs) of
        Inl e \<Rightarrow> Inl e
      | Inr ts \<Rightarrow>
          Inr (Some (''['' @ join '','' (map (\<lambda>t. case t of None \<Rightarrow> ''null'' | Some u \<Rightarrow> u) ts)
                     @ '']'')))"
| "JSON_stringify stack (JObj kvs) =
     (if stack = 0 then Inl RangeError
      else case sequence (map (\<lambda>(k, v). map_sum id (Pair k) (JSON_stringify (stack - 1) v)) kvs) of
        Inl e \<Rightarrow> Inl e
      | Inr ts \<Rightarrow>
          Inr (Some (''{'' @ join '',''
                       (concat (map (\<lambda>(k, t). case t of None \<Rightarrow> []
                                        | Some u \<Rightarrow> [QuoteJSONString k @ '':'' @ u]) ts))
                     @ ''}'')))"

text \<open>A value inside a template literal: \<open>undefined\<close> prints as the word.\<close>

definition template :: "string option \<Rightarrow> string" where
  "template t = (case t of None \<Rightarrow> ''undefined'' | Some u \<Rightarrow> u)"

section \<open>The flow document builder\<close>

record FlowStep =
  command :: string
  params :: jsval

text \<open>
  \<^verbatim>\<open>formatValue\<close>: a string is quoted and escaped, a number or boolean is printed, and
  everything else goes through \<^verbatim>\<open>JSON.stringify\<close>, whose result (a string or
  \<open>undefined\<close>) is returned as it is. The functions of the builder pass on what the
  stack allows to \<^verbatim>\<open>JSON.stringify\<close>.
\<close>

fun formatValue :: "nat \<Rightarrow> jsval \<Rightarrow> error + string option" where
  "formatValue stack (JStr s) = Inr (Some ([dquote] @ escapeYaml s @ [dquote]))"
| "formatValue stack (JNum n) = Inr (Some (Number_toString n))"
| "formatValue stack (JBool b) = Inr (Some (Boolean_toString b))"
| "formatValue stack v = JSON_stringify stack v"

text \<open>
  The two callbacks of \<^verbatim>\<open>formatStep\<close>. \<open>nested_line\<close> renders one property of a nested
  object, eight spaces deep; \<open>entry_lines\<close> renders one property of the parameters, six
  spaces deep, and opens a nested block when \<^verbatim>\<open>typeof v === "object" && v !== null\<close>,
  which holds for plain objects and for arrays.
\<close>

definition nested_line :: "nat \<Rightarrow> string \<times> jsval \<Rightarrow> error + string" where
  "nested_line stack = (\<lambda>(nk, nv).
     map_sum id (\<lambda>t. ''        '' @ nk @ '': '' @ template t) (formatValue stack nv))"

fun is_object :: "jsval \<Rightarrow> bool" where
  "is_object (JObj kvs) = True"
| "is_object (JArr xs) = True"
| "is_object _ = False"

definition entry_lines :: "nat \<Rightarrow> string \<times> jsval \<Rightarrow> error + string" where
  "entry_lines stack = (\<lambda>(k, v).
     if is_object v then
       map_sum id (\<lambda>ls. ''      '' @ k @ '':'' @ [newline] @ join [newline] ls)
         (sequence (map (nested_line stack) (Object_entries v)))
     else map_sum id (\<lambda>t. ''      '' @ k @ '': '' @ template t) (formatValue stack v))"

text \<open>
  \<^verbatim>\<open>formatStep\<close>: the tests of the source in their order. After \<open>undefined\<close>,
  \<open>null\<close>, strings, numbers and booleans, the object test
  \<^verbatim>\<open>typeof params === "object" && !Array.isArray(params)\<close> holds for plain objects only;
  arrays and BigInts reach the last line.
\<close>

fun formatParams :: "nat \<Rightarrow> string \<Rightarrow> jsval \<Rightarrow> error + string" where
  "formatParams stack cmd JUndefined = Inr (''- '' @ cmd)"
| "formatParams stack cmd JNull = Inr (''- '' @ cmd)"
| "formatParams stack cmd (JStr s) =
     Inr (''- '' @ cmd @ '': '' @ [dquote] @ escapeYaml s @ [dquote])"
| "formatParams stack cmd (JNum n) = Inr (''- '' @ cmd @ '': '' @ Number_toString n)"
| "formatParams stack cmd (JBool b) = Inr (''- '' @ cmd @ '': '' @ Boolean_toString b)"
| "formatParams stack cmd (JObj kvs) =
     map_sum id (\<lambda>ls. ''- '' @ cmd @ '':'' @ [newline] @ join [newline] ls)
       (sequence (map (entry_lines stack) kvs))"
| "formatParams stack cmd v =
     map_sum id (\<lambda>t. ''- '' @ cmd @ '': '' @ template t) (JSON_stringify stack v)"

definition formatStep :: "nat \<Rightarrow> FlowStep \<Rightarrow> error + string" where
  "formatStep stack step = formatParams stack (command step) (params step)"

text \<open>
  \<^verbatim>\<open>buildYaml\<close>: the array \<open>lines\<close> starts with the header and the separator, the loop
  pushes one rendered step after the other (an exception of \<open>formatStep\<close> leaves the
  loop and the function), and the lines are joined.
\<close>

fun push_steps :: "nat \<Rightarrow> string list \<Rightarrow> FlowStep list \<Rightarrow> error + string list" where
  "push_steps stack lines [] = Inr lines"
| "push_steps stack lines (step # steps) =
     (case formatStep stack step of
        Inl e \<Rightarrow> Inl e
      | Inr l \<Rightarrow> push_steps stack (lines @ [l]) steps)"

definition buildYaml :: "nat \<Rightarrow> string \<Rightarrow> FlowStep list \<Rightarrow> error + string" where
  "buildYaml stack appId steps =
     map_sum id (\<lambda>lines. join [newline] lines @ [newline])
       (push_steps stack [''appId: '' @ appId, ''---''] steps)"

section \<open>The process runner\<close>

record ExecResult =
  stdout :: string
  stderr :: string
  exitCode :: int

text \<open>
  An asynchronous function either never settles (\<open>None\<close>), rejects with an exception
  or resolves with a value.
\<close>

type_synonym 'a promise = "(error + 'a) option"

text \<open>
  The runtime's side of \<^verbatim>\<open>execFile(cmd, args, options, callback)\<close>. The call throws at
  once (arguments the runtime refuses), or the callback is invoked once with an error
  object or \<open>null\<close>, and the collected output. The program reads of the error object
  only \<^verbatim>\<open>code\<close>, which Node.js sets to the exit status (a number), to an error name
  (a string such as \<open>ENOENT\<close>) or to \<open>null\<close>.
\<close>

datatype error_code = NumCode int | StrCode string | NoCode

record exec_error =
  err_message :: string
  err_code :: error_code

datatype execFile_behaviour =
    ExecFileThrows error
  | Callback "exec_error option" "string option" "string option"

text \<open>
  The runtime's side of \<^verbatim>\<open>spawn(cmd, args, options)\<close>: the call throws at once, or it
  returns a child that emits events. \<open>CloseEvent\<close> carries the exit code, or \<open>None\<close>
  for \<open>null\<close>; \<open>ErrorEvent\<close> carries the message of the error.
\<close>

datatype child_event =
    StdoutData string
  | StderrData string
  | CloseEvent "int option"
  | ErrorEvent string

datatype spawn_behaviour = SpawnThrows error | Child "child_event list"

text \<open>
  How a process ends, and what Node.js documents that \<^verbatim>\<open>execFile\<close> then passes to its
  callback as the error: \<open>null\<close> after exit status 0; an error whose \<open>code\<close> is the
  status after another exit status; an error whose \<open>code\<close> is \<open>null\<close> after a kill by
  a signal (which is how the timeout ends a process); the spawn error, whose \<open>code\<close> is
  its name, when the process could not be started.
\<close>

datatype process_end =
    Exited nat
  | Killed string
  | SpawnFailed string string

fun execFile_error :: "process_end \<Rightarrow> exec_error option" where
  "execFile_error (Exited c) =
     (if c = 0 then None
      else Some \<lparr>err_message = ''Command failed'', err_code = NumCode (int c)\<rparr>)"
| "execFile_error (Killed signal) =
     Some \<lparr>err_message = ''Command failed'', err_code = NoCode\<rparr>"
| "execFile_error (SpawnFailed name msg) = Some \<lparr>err_message = msg, err_code = StrCode name\<rparr>"

text \<open>
  And for \<^verbatim>\<open>spawn\<close>: a process that could not be started emits \<open>error\<close> and then
  \<open>close\<close> with a negative code; a process that ran emits its output and then
  \<open>close\<close> with its exit status, or with \<open>null\<close> after a kill by a signal.
\<close>

fun spawn_events :: "process_end \<Rightarrow> child_event list \<Rightarrow> child_event list" where
  "spawn_events (Exited c) output = output @ [CloseEvent (Some (int c))]"
| "spawn_events (Killed signal) output = output @ [CloseEvent None]"
| "spawn_events (SpawnFailed name msg) output = [ErrorEvent msg, CloseEvent (Some (- 2))]"

text \<open>The events that carry output, and what they carry.\<close>

fun is_data :: "child_event \<Rightarrow> bool" where
  "is_data (StdoutData chunk) = True"
| "is_data (StderrData chunk) = True"
| "is_data _ = False"

fun stdout_chunk :: "child_event \<Rightarrow> string" where
  "stdout_chunk (StdoutData chunk) = chunk"
| "stdout_chunk _ = []"

fun stderr_chunk :: "child_event \<Rightarrow> string" where
  "stderr_chunk (StderrData chunk) = chunk"
| "stderr_chunk _ = []"

text \<open>The operating system, the file system and the runtime, as the program meets them.\<close>

record environment =
  stack_depth :: nat
  tmpdir :: string
  mkdtemp_env :: "string \<Rightarrow> error + string"
  writeFile_env :: "string \<Rightarrow> error option"
  rm_env :: "string \<Rightarrow> error option"
  execFile_env :: "string \<Rightarrow> string list \<Rightarrow> int \<Rightarrow> execFile_behaviour"
  spawn_env :: "nat \<Rightarrow> string \<Rightarrow> string list \<Rightarrow> int \<Rightarrow> spawn_behaviour"
  settle_order :: "nat list"
  JSON_parse :: "string \<Rightarrow> error + jsval"

text \<open>
  \<open>stack_depth\<close> is what the call stack allows to \<^verbatim>\<open>JSON.stringify\<close>;
  \<open>mkdtemp_env\<close> gives, for a prefix, the random suffix of the new directory, or the
  error; \<open>writeFile_env\<close> and \<open>rm_env\<close> say whether the write and the removal of a
  path fail; \<open>spawn_env i\<close> is the behaviour of the \<open>i\<close>-th child started by an operation;
  \<open>settle_order\<close> is the order in which the children of a fan-out settle.

  The effects of an operation are traced, and the scratch directories and the files in
  them are kept in the state.
\<close>

datatype effect =
    Mkdtemp string
  | WriteFile string string
  | ExecFile string "string list" int
  | Spawn string "string list" int
  | Settled nat
  | Rm string

record world =
  dirs :: "string set"
  files :: "string \<rightharpoonup> string"
  trace :: "effect list"

definition log :: "effect \<Rightarrow> world \<Rightarrow> world" where
  "log e w = w\<lparr>trace := trace w @ [e]\<rparr>"

definition path_join :: "string \<Rightarrow> string \<Rightarrow> string" where
  "path_join a b = a @ ''/'' @ b"

definition mkdtemp :: "environment \<Rightarrow> string \<Rightarrow> world \<Rightarrow> (error + string) \<times> world" where
  "mkdtemp env pre w =
     (case mkdtemp_env env pre of
        Inl e \<Rightarrow> (Inl e, log (Mkdtemp pre) w)
      | Inr rnd \<Rightarrow>
          (Inr (pre @ rnd), log (Mkdtemp pre) (w\<lparr>dirs := insert (pre @ rnd) (dirs w)\<rparr>)))"

definition writeFile :: "environment \<Rightarrow> string \<Rightarrow> string \<Rightarrow> world \<Rightarrow> (error + unit) \<times> world" where
  "writeFile env path content w =
     (case writeFile_env env path of
        Some e \<Rightarrow> (Inl e, log (WriteFile path content) w)
      | None \<Rightarrow> (Inr (), log (WriteFile path content) (w\<lparr>files := (files w)(path \<mapsto> content)\<rparr>)))"

text \<open>\<^verbatim>\<open>rm(dir, { recursive: true, force: true })\<close>: the directory and all below it.\<close>

definition rm :: "environment \<Rightarrow> string \<Rightarrow> world \<Rightarrow> (error + unit) \<times> world" where
  "rm env dir w =
     (case rm_env env dir of
        Some e \<Rightarrow> (Inl e, log (Rm dir) w)
      | None \<Rightarrow>
          (Inr (), log (Rm dir)
             (w\<lparr>dirs := dirs w - {dir},
                files := (\<lambda>p. if prefix (dir @ ''/'') p then None else files w p)\<rparr>)))"

text \<open>
  \<^verbatim>\<open>exec\<close>: the promise resolves in the callback. An exception of \<^verbatim>\<open>execFile\<close> itself
  is thrown inside the promise's executor and rejects the promise.
\<close>

definition or_empty :: "string option \<Rightarrow> string" where
  "or_empty s = (case s of None \<Rightarrow> [] | Some t \<Rightarrow> t)"

definition exec_callback :: "exec_error option \<Rightarrow> string option \<Rightarrow> string option \<Rightarrow> ExecResult" where
  "exec_callback err out errout =
     \<lparr>stdout = or_empty out,
      stderr = or_empty errout,
      exitCode = (case err of
                    None \<Rightarrow> 0
                  | Some e \<Rightarrow> (case err_code e of NumCode n \<Rightarrow> n | _ \<Rightarrow> 1))\<rparr>"

definition exec :: "environment \<Rightarrow> string \<Rightarrow> string list \<Rightarrow> int \<Rightarrow> world \<Rightarrow> ExecResult promise \<times> world" where
  "exec env cmd args timeoutMs w =
     (case execFile_env env cmd args timeoutMs of
        ExecFileThrows e \<Rightarrow> (Some (Inl e), log (ExecFile cmd args timeoutMs) w)
      | Callback err out errout \<Rightarrow>
          (Some (Inr (exec_callback err out errout)), log (ExecFile cmd args timeoutMs) w))"

text \<open>
  \<^verbatim>\<open>execStream\<close>: the listeners append the chunks to \<open>stdout\<close> and \<open>stderr\<close>; the first
  \<open>close\<close> or \<open>error\<close> event resolves the promise, and what comes after it changes
  nothing. A child that emits neither leaves the promise pending.
\<close>

fun listen :: "string \<Rightarrow> string \<Rightarrow> child_event list \<Rightarrow> ExecResult option" where
  "listen out err [] = None"
| "listen out err (StdoutData chunk # es) = listen (out @ chunk) err es"
| "listen out err (StderrData chunk # es) = listen out (err @ chunk) es"
| "listen out err (CloseEvent code # es) =
     Some \<lparr>stdout = out, stderr = err, exitCode = (case code of None \<Rightarrow> 1 | Some c \<Rightarrow> c)\<rparr>"
| "listen out err (ErrorEvent msg # es) =
     Some \<lparr>stdout = out, stderr = err @ [newline] @ msg, exitCode = 1\<rparr>"

definition execStream_settles :: "spawn_behaviour \<Rightarrow> ExecResult promise" where
  "execStream_settles b =
     (case b of SpawnThrows e \<Rightarrow> Some (Inl e) | Child es \<Rightarrow> map_option Inr (listen [] [] es))"

definition execStream ::
  "environment \<Rightarrow> nat \<Rightarrow> string \<Rightarrow> string list \<Rightarrow> int \<Rightarrow> world \<Rightarrow> ExecResult promise \<times> world" where
  "execStream env i cmd args timeoutMs w =
     (execStream_settles (spawn_env env i cmd args timeoutMs), log (Spawn cmd args timeoutMs) w)"

section \<open>The execution orchestrator\<close>

text \<open>\<^verbatim>\<open>if (deviceId)\<close>: an absent and an empty device id are both falsy.\<close>

definition device_args :: "string option \<Rightarrow> string list" where
  "device_args deviceId =
     (case deviceId of None \<Rightarrow> [] | Some d \<Rightarrow> if d = [] then [] else [''--device'', d])"

definition runFlow ::
  "environment \<Rightarrow> nat \<Rightarrow> string \<Rightarrow> string option \<Rightarrow> int \<Rightarrow> world \<Rightarrow> ExecResult promise \<times> world" where
  "runFlow env i flowPath deviceId timeoutMs w =
     execStream env i ''maestro'' (device_args deviceId @ [''test'', flowPath]) timeoutMs w"

record steps_result =
  yaml :: string
  result :: ExecResult

text \<open>
  \<^verbatim>\<open>executeSteps\<close>. The document is built, the directory made and the file written
  before the \<^verbatim>\<open>try\<close>; an exception there leaves the function at once. Inside the
  \<^verbatim>\<open>try\<close> the flow runs, and when it has settled the \<^verbatim>\<open>finally\<close> block removes the
  directory and drops the outcome of the removal.
\<close>

definition executeSteps ::
  "environment \<Rightarrow> string \<Rightarrow> FlowStep list \<Rightarrow> string option \<Rightarrow> int \<Rightarrow> world
   \<Rightarrow> steps_result promise \<times> world" where
  "executeSteps env appId steps deviceId timeoutMs w =
     (case buildYaml (stack_depth env) appId steps of
        Inl e \<Rightarrow> (Some (Inl e), w)
      | Inr doc \<Rightarrow>
          (case mkdtemp env (path_join (tmpdir env) ''maestro-mcp-'') w of
             (Inl e, w1) \<Rightarrow> (Some (Inl e), w1)
           | (Inr dir, w1) \<Rightarrow>
               (case writeFile env (path_join dir ''flow.yaml'') doc w1 of
                  (Inl e, w2) \<Rightarrow> (Some (Inl e), w2)
                | (Inr u, w2) \<Rightarrow>
                    (case runFlow env 0 (path_join dir ''flow.yaml'') deviceId timeoutMs w2 of
                       (None, w3) \<Rightarrow> (None, w3)
                     | (Some r, w3) \<Rightarrow>
                         (Some (map_sum id (\<lambda>res. \<lparr>yaml = doc, result = res\<rparr>) r),
                          snd (rm env dir w3))))))"

record screenshot_result =
  path :: string
  shot_result :: ExecResult

text \<open>\<^verbatim>\<open>takeScreenshot\<close>: no \<^verbatim>\<open>try\<close> and no removal.\<close>

definition takeScreenshot ::
  "environment \<Rightarrow> string option \<Rightarrow> string option \<Rightarrow> world \<Rightarrow> screenshot_result promise \<times> world" where
  "takeScreenshot env deviceId outputPath w =
     (case mkdtemp env (path_join (tmpdir env) ''maestro-mcp-screenshot-'') w of
        (Inl e, w1) \<Rightarrow> (Some (Inl e), w1)
      | (Inr dir, w1) \<Rightarrow>
          (let screenshotPath = (case outputPath of None \<Rightarrow> path_join dir ''screenshot.png''
                                 | Some p \<Rightarrow> p);
               doc = ''---'' @ [newline] @ ''- takeScreenshot: '' @ screenshotPath @ [newline];
               flowPath = path_join dir ''screenshot_flow.yaml''
           in case writeFile env flowPath doc w1 of
                (Inl e, w2) \<Rightarrow> (Some (Inl e), w2)
              | (Inr u, w2) \<Rightarrow>
                  (case execStream env 0 ''maestro'' (device_args deviceId @ [''test'', flowPath])
                          180000 w2 of
                     (r, w3) \<Rightarrow>
                       (map_option (map_sum id (\<lambda>res. \<lparr>path = screenshotPath, shot_result = res\<rparr>)) r,
                        w3))))"

text \<open>
  \<^verbatim>\<open>executeStepsMultiDevice\<close>. \<^verbatim>\<open>deviceIds.map(async (id) => ...)\<close> calls the callback for
  one device id after the other, and each call runs up to its \<^verbatim>\<open>await\<close>, that is
  through \<^verbatim>\<open>runFlow\<close> and \<^verbatim>\<open>spawn\<close>: all children are started before any of them is
  waited for.
\<close>

fun launch_all ::
  "environment \<Rightarrow> string \<Rightarrow> int \<Rightarrow> nat \<Rightarrow> string list \<Rightarrow> world
   \<Rightarrow> ExecResult promise list \<times> world" where
  "launch_all env flowPath timeoutMs i [] w = ([], w)"
| "launch_all env flowPath timeoutMs i (d # ds) w =
     (case runFlow env i flowPath (Some d) timeoutMs w of
        (p, w1) \<Rightarrow>
          (case launch_all env flowPath timeoutMs (Suc i) ds w1 of
             (ps, w2) \<Rightarrow> (p # ps, w2)))"

text \<open>
  \<^verbatim>\<open>Promise.all\<close> over the promises \<open>ps\<close>, which settle in the given order (the index of
  a promise that never settles, or an index met twice, is passed over). It is fulfilled
  with all values, in the order of \<open>ps\<close>, once every promise is fulfilled; it is rejected
  as soon as one promise is rejected; otherwise it stays pending. The second component
  lists the promises that had settled by then.
\<close>

datatype 'a joined = Pending | RejectedWith error | FulfilledWith "'a list"

definition fulfilled :: "'a promise list \<Rightarrow> 'a list" where
  "fulfilled ps = List.map_filter (\<lambda>p. case p of Some (Inr r) \<Rightarrow> Some r | _ \<Rightarrow> None) ps"

definition all_seen :: "nat list \<Rightarrow> nat \<Rightarrow> bool" where
  "all_seen seen n = list_all (\<lambda>i. i \<in> set seen) [0 ..< n]"

fun await_all :: "'a promise list \<Rightarrow> nat list \<Rightarrow> nat list \<Rightarrow> 'a joined \<times> nat list" where
  "await_all ps seen [] =
     (if all_seen seen (length ps) then (FulfilledWith (fulfilled ps), seen) else (Pending, seen))"
| "await_all ps seen (i # order) =
     (if all_seen seen (length ps) then (FulfilledWith (fulfilled ps), seen)
      else if i < length ps \<and> i \<notin> set seen then
        (case ps ! i of
           None \<Rightarrow> await_all ps seen order
         | Some (Inl e) \<Rightarrow> (RejectedWith e, seen @ [i])
         | Some (Inr r) \<Rightarrow> await_all ps (seen @ [i]) order)
      else await_all ps seen order)"

text \<open>
  \<^verbatim>\<open>for (const [id, result] of entries) results[id] = result\<close> on the object
  \<^verbatim>\<open>results = {}\<close>. The map holds the own properties of \<open>results\<close>. An assignment
  creates or overwrites the property of that name, but for the name \<open>__proto__\<close>: that
  assignment goes to the setter of \<^verbatim>\<open>Object.prototype\<close>, which makes the result the
  prototype of \<open>results\<close> and adds no property.
\<close>

fun collect :: "(string \<times> ExecResult) list \<Rightarrow> (string \<rightharpoonup> ExecResult) \<Rightarrow> (string \<rightharpoonup> ExecResult)" where
  "collect [] m = m"
| "collect ((d, r) # entries) m =
     collect entries (if d = ''__proto__'' then m else m(d \<mapsto> r))"

definition settle :: "nat list \<Rightarrow> world \<Rightarrow> world" where
  "settle seen w = w\<lparr>trace := trace w @ map Settled seen\<rparr>"

record multi_result =
  multi_yaml :: string
  results :: "string \<rightharpoonup> ExecResult"

definition executeStepsMultiDevice ::
  "environment \<Rightarrow> string \<Rightarrow> FlowStep list \<Rightarrow> string list \<Rightarrow> int \<Rightarrow> world
   \<Rightarrow> multi_result promise \<times> world" where
  "executeStepsMultiDevice env appId steps deviceIds timeoutMs w =
     (case buildYaml (stack_depth env) appId steps of
        Inl e \<Rightarrow> (Some (Inl e), w)
      | Inr doc \<Rightarrow>
          (case mkdtemp env (path_join (tmpdir env) ''maestro-mcp-'') w of
             (Inl e, w1) \<Rightarrow> (Some (Inl e), w1)
           | (Inr dir, w1) \<Rightarrow>
               (case writeFile env (path_join dir ''flow.yaml'') doc w1 of
                  (Inl e, w2) \<Rightarrow> (Some (Inl e), w2)
                | (Inr u, w2) \<Rightarrow>
                    (case launch_all env (path_join dir ''flow.yaml'') timeoutMs 0 deviceIds w2 of
                       (ps, w3) \<Rightarrow>
                         (case await_all ps [] (settle_order env) of
                            (Pending, seen) \<Rightarrow> (None, settle seen w3)
                          | (RejectedWith e, seen) \<Rightarrow>
                              (Some (Inl e), snd (rm env dir (settle seen w3)))
                          | (FulfilledWith rs, seen) \<Rightarrow>
                              (Some (Inr \<lparr>multi_yaml = doc,
                                          results = collect (zip deviceIds rs) Map.empty\<rparr>),
                               snd (rm env dir (settle seen w3))))))))"

section \<open>The device inventory\<close>

record android_device =
  android_id :: string
  android_status :: string

record ios_device =
  ios_id :: jsval
  ios_name :: string
  ios_status :: string

record device_lists =
  android :: "android_device list"
  ios :: "ios_device list"

subsection \<open>The lines of adb\<close>

text \<open>
  In this part a \<^typ>\<open>char\<close> stands for a code unit below 256 (Latin-1). The white
  space of \<^verbatim>\<open>trim\<close> and of the classes \<^verbatim>\<open>\s\<close> and \<^verbatim>\<open>\S\<close> is then tab, line feed,
  vertical tab, form feed, carriage return, space and no-break space.
\<close>

definition is_space :: "char \<Rightarrow> bool" where
  "is_space c \<longleftrightarrow> c \<in> set [CHR 0x09, CHR 0x0A, CHR 0x0B, CHR 0x0C, CHR 0x0D, CHR 0x20, CHR 0xA0]"

definition trim :: "string \<Rightarrow> string" where
  "trim s = rev (dropWhile is_space (rev (dropWhile is_space s)))"

text \<open>\<^verbatim>\<open>s.split(c)\<close> for a separator of one character: never an empty array.\<close>

fun split_on :: "char \<Rightarrow> string \<Rightarrow> string list" where
  "split_on c [] = [[]]"
| "split_on c (x # xs) =
     (if x = c then [] # split_on c xs
      else (case split_on c xs of [] \<Rightarrow> [[x]] | l # ls \<Rightarrow> (x # l) # ls))"

text \<open>
  \<^verbatim>\<open>line.match(/^(\S+)\s+(device|offline|unauthorized)$/)\<close>. The first group is greedy
  and cannot cross white space, so it is the longest prefix without white space; it must
  be followed by white space, and what follows the white space must be one of the three
  words, up to the end.
\<close>

definition match_device :: "string \<Rightarrow> (string \<times> string) option" where
  "match_device line =
     (let ident = takeWhile (\<lambda>c. \<not> is_space c) line;
          rest = dropWhile (\<lambda>c. \<not> is_space c) line;
          status = dropWhile is_space rest
      in if ident \<noteq> [] \<and> takeWhile is_space rest \<noteq> []
            \<and> status \<in> set [''device'', ''offline'', ''unauthorized'']
         then Some (ident, status) else None)"

definition parse_android :: "string \<Rightarrow> android_device list" where
  "parse_android out =
     List.map_filter
       (\<lambda>line. map_option (\<lambda>(i, st). \<lparr>android_id = i, android_status = st\<rparr>)
                 (match_device (trim line)))
       (tl (split_on newline out))"

subsection \<open>The JSON of simctl\<close>

text \<open>
  Reading one of the properties \<open>devices\<close>, \<open>isAvailable\<close>, \<open>udid\<close>, \<open>name\<close>,
  \<open>state\<close>, or a key that \<^verbatim>\<open>Object.keys\<close> has listed: on \<open>undefined\<close> and \<open>null\<close> it
  throws; otherwise it is the own property of that name, or \<open>undefined\<close> (no prototype
  defines one of these names).
\<close>

definition get_prop :: "jsval \<Rightarrow> string \<Rightarrow> error + jsval" where
  "get_prop v k =
     (if v = JUndefined \<or> v = JNull then Inl TypeError
      else Inr (case map_of (Object_entries v) k of None \<Rightarrow> JUndefined | Some x \<Rightarrow> x))"

definition truthy :: "jsval \<Rightarrow> bool" where
  "truthy v =
     (case v of
        JUndefined \<Rightarrow> False
      | JNull \<Rightarrow> False
      | JBool b \<Rightarrow> b
      | JNum n \<Rightarrow> n \<noteq> Finite ''0'' \<and> n \<noteq> NaN
      | JBigInt i \<Rightarrow> i \<noteq> 0
      | JStr s \<Rightarrow> s \<noteq> []
      | _ \<Rightarrow> True)"

definition Object_keys :: "jsval \<Rightarrow> string list" where
  "Object_keys v = map fst (Object_entries v)"

text \<open>\<^verbatim>\<open>for (const device of v)\<close>: arrays and strings can be iterated, nothing else.\<close>

fun iterate :: "jsval \<Rightarrow> error + jsval list" where
  "iterate (JArr xs) = Inr xs"
| "iterate (JStr s) = Inr (map (\<lambda>c. JStr [c]) s)"
| "iterate _ = Inl TypeError"

text \<open>A value in a template literal.\<close>

definition show_int :: "int \<Rightarrow> string" where
  "show_int i = (if i < 0 then ''-'' @ show_nat (nat (- i)) else show_nat (nat i))"

fun ToString :: "jsval \<Rightarrow> string" where
  "ToString JUndefined = ''undefined''"
| "ToString JNull = ''null''"
| "ToString (JBool b) = Boolean_toString b"
| "ToString (JNum n) = Number_toString n"
| "ToString (JBigInt i) = show_int i"
| "ToString (JStr s) = s"
| "ToString (JArr xs) =
     join '','' (map (\<lambda>x. if x = JUndefined \<or> x = JNull then [] else ToString x) xs)"
| "ToString (JObj kvs) = ''[object Object]''"

text \<open>
  \<^verbatim>\<open>toLowerCase\<close> on Latin-1: the letters A to Z, and those from U+00C0 to U+00DE but
  the multiplication sign, move up by 32, which sets the bit of value 32 in their code.
\<close>

definition is_upper :: "char \<Rightarrow> bool" where
  "is_upper c =
     (let n = (of_char c :: nat)
      in (65 \<le> n \<and> n \<le> 90) \<or> (192 \<le> n \<and> n \<le> 222 \<and> n \<noteq> 215))"

definition lower_char :: "char \<Rightarrow> char" where
  "lower_char c =
     (if is_upper c
      then (case c of Char b0 b1 b2 b3 b4 b5 b6 b7 \<Rightarrow> Char b0 b1 b2 b3 b4 True b6 b7)
      else c)"

definition toLowerCase :: "string \<Rightarrow> string" where
  "toLowerCase s = map lower_char s"

text \<open>
  The object pushed for one device. \<^verbatim>\<open>device.state?.toLowerCase() ?? "unknown"\<close> is
  \<open>unknown\<close> for a state that is \<open>undefined\<close> or \<open>null\<close>, the lowered state for a
  string, and a \<open>TypeError\<close> for any other state, which has no such method.
\<close>

definition device_status :: "jsval \<Rightarrow> error + string" where
  "device_status state =
     (case state of
        JUndefined \<Rightarrow> Inr ''unknown''
      | JNull \<Rightarrow> Inr ''unknown''
      | JStr s \<Rightarrow> Inr (toLowerCase s)
      | _ \<Rightarrow> Inl TypeError)"

definition make_ios :: "string \<Rightarrow> jsval \<Rightarrow> error + ios_device" where
  "make_ios runtime device =
     (case get_prop device ''udid'' of
        Inl e \<Rightarrow> Inl e
      | Inr udid \<Rightarrow>
          (case get_prop device ''name'' of
             Inl e \<Rightarrow> Inl e
           | Inr name \<Rightarrow>
               (case get_prop device ''state'' of
                  Inl e \<Rightarrow> Inl e
                | Inr state \<Rightarrow>
                    (case device_status state of
                       Inl e \<Rightarrow> Inl e
                     | Inr status \<Rightarrow>
                         Inr \<lparr>ios_id = udid,
                              ios_name = ToString name @ '' ('' @ last (split_on (CHR ''.'') runtime) @ '')'',
                              ios_status = status\<rparr>))))"

text \<open>
  The two loops inside the \<^verbatim>\<open>try\<close>. An exception ends them, and the \<^verbatim>\<open>catch\<close>
  drops it; what was pushed before stays in the array.
\<close>

fun push_devices :: "string \<Rightarrow> jsval list \<Rightarrow> ios_device list \<Rightarrow> error option \<times> ios_device list" where
  "push_devices runtime [] acc = (None, acc)"
| "push_devices runtime (device # rest) acc =
     (case get_prop device ''isAvailable'' of
        Inl e \<Rightarrow> (Some e, acc)
      | Inr available \<Rightarrow>
          if available \<noteq> JBool False then
            (case make_ios runtime device of
               Inl e \<Rightarrow> (Some e, acc)
             | Inr d \<Rightarrow> push_devices runtime rest (acc @ [d]))
          else push_devices runtime rest acc)"

fun push_runtimes :: "jsval \<Rightarrow> string list \<Rightarrow> ios_device list \<Rightarrow> error option \<times> ios_device list" where
  "push_runtimes devices [] acc = (None, acc)"
| "push_runtimes devices (runtime # rest) acc =
     (case get_prop devices runtime of
        Inl e \<Rightarrow> (Some e, acc)
      | Inr member \<Rightarrow>
          (case iterate member of
             Inl e \<Rightarrow> (Some e, acc)
           | Inr ds \<Rightarrow>
               (case push_devices runtime ds acc of
                  (Some e, acc') \<Rightarrow> (Some e, acc')
                | (None, acc') \<Rightarrow> push_runtimes devices rest acc')))"

definition parse_ios :: "environment \<Rightarrow> string \<Rightarrow> ios_device list" where
  "parse_ios env out =
     (case JSON_parse env out of
        Inl e \<Rightarrow> []
      | Inr data \<Rightarrow>
          (case get_prop data ''devices'' of
             Inl e \<Rightarrow> []
           | Inr d \<Rightarrow>
               (let devices = (if truthy d then d else JObj [])
                in snd (push_runtimes devices (Object_keys devices) []))))"

text \<open>
  \<^verbatim>\<open>listDevices\<close>. Both commands are started; a rejection of either is caught and
  replaced by a result with exit code 1.
\<close>

definition caught :: "ExecResult promise \<Rightarrow> ExecResult option" where
  "caught p =
     map_option (\<lambda>r. case r of Inl e \<Rightarrow> \<lparr>stdout = [], stderr = [], exitCode = 1\<rparr> | Inr x \<Rightarrow> x) p"

definition listDevices :: "environment \<Rightarrow> world \<Rightarrow> device_lists promise \<times> world" where
  "listDevices env w =
     (case exec env ''adb'' [''devices''] 120000 w of
        (pa, w1) \<Rightarrow>
          (case exec env ''xcrun'' [''simctl'', ''list'', ''devices'', ''--json''] 120000 w1 of
             (pi, w2) \<Rightarrow>
               (case (caught pa, caught pi) of
                  (Some androidResult, Some iosResult) \<Rightarrow>
                    Some (Inr \<lparr>android = (if exitCode androidResult = 0
                                            then parse_android (stdout androidResult) else []),
                                ios = (if exitCode iosResult = 0
                                        then parse_ios env (stdout iosResult) else [])\<rparr>)
                | _ \<Rightarrow> None,
                w2)))"

text \<open>
  What the list of one platform is, given what the runtime did with the command of that
  platform and the parser of that platform.
\<close>

definition platform_list :: "(string \<Rightarrow> 'a list) \<Rightarrow> execFile_behaviour \<Rightarrow> 'a list" where
  "platform_list parse b =
     (case b of
        ExecFileThrows e \<Rightarrow> []
      | Callback err out errout \<Rightarrow>
          if exitCode (exec_callback err out errout) = 0
          then parse (stdout (exec_callback err out errout)) else [])"

text \<open>Two environments and the empty state, to run the operations on.\<close>

definition demo_env :: environment where
  "demo_env =
     \<lparr>stack_depth = 1000,
      tmpdir = ''/tmp'',
      mkdtemp_env = (\<lambda>p. Inr ''AbC123''),
      writeFile_env = (\<lambda>p. None),
      rm_env = (\<lambda>p. None),
      execFile_env = (\<lambda>c a t. Callback (Some \<lparr>err_message = ''Command failed'', err_code = NumCode 127\<rparr>)
                                  (Some []) (Some ''maestro: command not found'')),
      spawn_env = (\<lambda>i c a t. Child [StdoutData ''Test '', StdoutData ''passed'', CloseEvent (Some 0)]),
      settle_order = [],
      JSON_parse = (\<lambda>s. Inl SyntaxError)\<rparr>"

definition two_devices_env :: environment where
  "two_devices_env =
     demo_env\<lparr>spawn_env := (\<lambda>i c a t. if i = 0 then Child [StdoutData ''OK'', CloseEvent (Some 0)]
                                       else Child [StderrData ''Failed'', CloseEvent (Some 1)]),
              settle_order := [1, 0]\<rparr>"

definition empty_world :: world where
  "empty_world = \<lparr>dirs = {}, files = Map.empty, trace = []\<rparr>"

text \<open>
  An environment for the inventory: \<open>adb\<close> fails with exit code 1, \<open>xcrun\<close> prints a
  text that \<^verbatim>\<open>JSON.parse\<close> reads as one runtime with an available and an unavailable
  simulator; any other text does not parse.
\<close>

definition simctl_value :: jsval where
  "simctl_value =
     JObj [(''devices'',
       JObj [(''com.apple.CoreSimulator.SimRuntime.iOS-17-5'',
         JArr [JObj [(''udid'', JStr ''5B6D77EF''), (''name'', JStr ''iPhone 16''),
                     (''state'', JStr ''Booted''), (''isAvailable'', JBool True)],
               JObj [(''udid'', JStr ''DEAD0000''), (''name'', JStr ''iPhone SE''),
                     (''state'', JStr ''Shutdown''), (''isAvailable'', JBool False)]])])]"

definition inventory_env :: environment where
  "inventory_env =
     demo_env\<lparr>execFile_env := (\<lambda>c a t.
                  if c = ''adb''
                  then Callback (Some \<lparr>err_message = ''not found'', err_code = NumCode 1\<rparr>)
                         (Some []) (Some [])
                  else Callback None (Some ''simctl.json'') (Some [])),
              JSON_parse := (\<lambda>s. if s = ''simctl.json'' then Inr simctl_value else Inl SyntaxError)\<rparr>"

text \<open>The two devices again, where starting the child of the second one throws.\<close>

definition rejecting_env :: environment where
  "rejecting_env =
     two_devices_env\<lparr>spawn_env := (\<lambda>i c a t.
        if i = 0 then Child [StdoutData ''OK'', CloseEvent (Some 0)]
        else SpawnThrows (SystemError ''ERR_INVALID_ARG_VALUE''))\<rparr>"

text \<open>
  An array nested \<open>n\<close> levels deep around a value, and whether a value nests arrays
  and objects no deeper than a given number of levels.
\<close>

primrec nest :: "nat \<Rightarrow> jsval \<Rightarrow> jsval" where
  "nest 0 v = v"
| "nest (Suc n) v = JArr [nest n v]"

fun fits :: "nat \<Rightarrow> jsval \<Rightarrow> bool" where
  "fits stack (JArr xs) = (stack \<noteq> 0 \<and> (\<forall>x\<in>set xs. fits (stack - 1) x))"
| "fits stack (JObj kvs) = (stack \<noteq> 0 \<and> (\<forall>kv\<in>set kvs. fits (stack - 1) (snd kv)))"
| "fits stack _ = True"

text \<open>Whether a BigInt occurs anywhere in a value.\<close>

fun has_bigint :: "jsval \<Rightarrow> bool" where
  "has_bigint (JBigInt i) = True"
| "has_bigint (JArr xs) = (\<exists>x\<in>set xs. has_bigint x)"
| "has_bigint (JObj kvs) = (\<exists>kv\<in>set kvs. has_bigint (snd kv))"
| "has_bigint _ = False"

section \<open>Properties of the escaping\<close>

lemma replace_all_concat:
  "replace_all c r s = concat (map (\<lambda>x. if x = c then r else [x]) s)"
  by (induction s) simp_all

lemma escapeYaml_one_pass: "escapeYaml s = escape_one_pass s"
  by (induction s) (simp_all add: escapeYaml_def escape_one_pass_def replace_all_concat)

lemma other_order_differs: "quotes_then_backslashes [dquote] \<noteq> escapeYaml [dquote]"
  by (simp add: quotes_then_backslashes_def double_backslashes_def backslash_quotes_def
      escapeYaml_def)

text \<open>
  C3. \<open>escapeYaml\<close> doubles every backslash first and then puts a backslash in front of
  every double quote: its result is the sequential escaping, and the text
  \<open>a\"b\<close> (a, backslash, double quote, b) becomes \<open>a\\\"b\<close>
  (a, three backslashes, double quote, b).
\<close>

theorem escapeYaml_sequential:
  "escapeYaml s = backslash_quotes (double_backslashes s) \<and>
   escapeYaml [CHR ''a'', bslash, dquote, CHR ''b'']
     = [CHR ''a'', bslash, bslash, bslash, dquote, CHR ''b'']"
  by (simp add: escapeYaml_def replace_all_concat backslash_quotes_def double_backslashes_def)

section \<open>Properties of the builder\<close>

lemma sequence_Inr_iff: "sequence rs = Inr xs \<longleftrightarrow> list_all2 (\<lambda>r x. r = Inr x) rs xs"
proof (induction rs arbitrary: xs rule: sequence.induct)
  case 1
  then show ?case by auto
next
  case (2 e rs)
  then show ?case by (simp add: list_all2_Cons1)
next
  case (3 x rs)
  show ?case
  proof (cases "sequence rs")
    case (Inl e)
    then have "\<not> list_all2 (\<lambda>r x. r = Inr x) rs zs" for zs
      using "3.IH"[of zs] by simp
    then show ?thesis using Inl by (simp add: list_all2_Cons1)
  next
    case (Inr ys)
    then have "list_all2 (\<lambda>r x. r = Inr x) rs zs \<longleftrightarrow> zs = ys" for zs
      using "3.IH"[of zs] by auto
    then show ?thesis using Inr by (auto simp: list_all2_Cons1)
  qed
qed

lemma sequence_map_Inr_iff:
  "sequence (map f xs) = Inr ys \<longleftrightarrow> list_all2 (\<lambda>x y. f x = Inr y) xs ys"
  by (simp add: sequence_Inr_iff list_all2_map1)

lemma sequence_fails_iff: "(\<exists>e. sequence rs = Inl e) \<longleftrightarrow> (\<exists>r\<in>set rs. isl r)"
  by (induction rs rule: sequence.induct) (auto split: sum.splits)

lemma sequence_error: "sequence rs = Inl e \<Longrightarrow> Inl e \<in> set rs"
  by (induction rs rule: sequence.induct) (auto split: sum.splits)

lemma sequence_map_error: "sequence (map f xs) = Inl e \<Longrightarrow> \<exists>x\<in>set xs. f x = Inl e"
proof -
  assume "sequence (map f xs) = Inl e"
  then have "Inl e \<in> set (map f xs)" by (rule sequence_error)
  then show ?thesis by (simp add: image_iff) metis
qed

lemma fits_mono: "fits d v \<Longrightarrow> d \<le> d' \<Longrightarrow> fits d' v"
proof (induction v arbitrary: d d')
  case (JArr xs)
  then show ?case by fastforce
next
  case (JObj kvs)
  have "fits (d' - 1) (snd kv)" if "kv \<in> set kvs" for kv
  proof -
    have "fits (d - 1) (snd kv)" using JObj.prems(1) that by simp
    moreover have "snd kv \<in> Basic_BNFs.snds kv" by (cases kv) simp
    moreover have "d - 1 \<le> d' - 1" using JObj.prems(2) by simp
    ultimately show ?thesis using JObj.IH that by blast
  qed
  then show ?case using JObj.prems by auto
qed simp_all

lemma JSON_stringify_fails:
  "JSON_stringify d v = Inl e \<Longrightarrow>
   (e = TypeError \<and> has_bigint v) \<or> (e = RangeError \<and> \<not> fits d v)"
proof (induction v arbitrary: d e)
  case (JArr xs)
  show ?case
  proof (cases "d = 0")
    case True
    then show ?thesis using JArr.prems by simp
  next
    case False
    then have "sequence (map (JSON_stringify (d - 1)) xs) = Inl e"
      using JArr.prems by (simp split: sum.splits)
    then obtain x where x: "x \<in> set xs" "JSON_stringify (d - 1) x = Inl e"
      using sequence_map_error by blast
    from JArr.IH[OF this] x(1) show ?thesis by auto
  qed
next
  case (JObj kvs)
  show ?case
  proof (cases "d = 0")
    case True
    then show ?thesis using JObj.prems by simp
  next
    case False
    then have "sequence (map (\<lambda>(k, v). map_sum id (Pair k) (JSON_stringify (d - 1) v)) kvs) = Inl e"
      using JObj.prems by (simp split: sum.splits)
    then obtain kv where kv: "kv \<in> set kvs"
      and m: "(case kv of (k, v) \<Rightarrow> map_sum id (Pair k) (JSON_stringify (d - 1) v))
                = (Inl e :: error + string \<times> string option)"
      using sequence_map_error by blast
    have s: "JSON_stringify (d - 1) (snd kv) = Inl e"
      using m by (cases kv; cases "JSON_stringify (d - 1) (snd kv)") auto
    have "snd kv \<in> Basic_BNFs.snds kv" by (cases kv) simp
    from JObj.IH[OF kv this s] kv show ?thesis by auto
  qed
next
  case (JNum n)
  then show ?case by (cases n) auto
qed auto

lemma JSON_stringify_nest: "JSON_stringify d (nest (Suc d) v) = Inl RangeError"
  by (induction d) simp_all

lemma formatValue_fails:
  "formatValue d v = Inl e \<Longrightarrow>
   (e = TypeError \<and> has_bigint v) \<or> (e = RangeError \<and> \<not> fits d v)"
  by (cases v) (auto dest: JSON_stringify_fails simp del: JSON_stringify.simps)

lemma snd_index_from: "map snd (index_from i xs) = xs"
  by (induction xs arbitrary: i) simp_all

lemma nested_line_fails:
  assumes "nested_line d kv = Inl e"
  shows "(e = TypeError \<and> has_bigint (snd kv)) \<or> (e = RangeError \<and> \<not> fits d (snd kv))"
proof -
  have "formatValue d (snd kv) = Inl e"
    using assms by (cases kv; cases "formatValue d (snd kv)") (auto simp: nested_line_def)
  then show ?thesis by (rule formatValue_fails)
qed

lemma entry_of_object:
  assumes "is_object v" and "kv \<in> set (Object_entries v)"
  shows "(has_bigint (snd kv) \<longrightarrow> has_bigint v) \<and> (fits d v \<longrightarrow> fits d (snd kv))"
proof (cases v)
  case (JArr xs)
  have "snd kv \<in> set (map snd (index_from 0 xs))" using assms(2) JArr by auto
  then have x: "snd kv \<in> set xs" by (simp only: snd_index_from)
  then have "fits d (JArr xs) \<longrightarrow> fits d (snd kv)"
    using fits_mono[of "d - 1" "snd kv" d] by auto
  then show ?thesis using JArr x by auto
next
  case (JObj kvs)
  then have "fits d (JObj kvs) \<longrightarrow> fits d (snd kv)"
    using assms(2) fits_mono[of "d - 1" "snd kv" d] by auto
  then show ?thesis using JObj assms(2) by auto
qed (use assms(1) in simp_all)

lemma entry_lines_fails:
  assumes "entry_lines d (k, v) = Inl e"
  shows "(e = TypeError \<and> has_bigint v) \<or> (e = RangeError \<and> \<not> fits d v)"
proof (cases "is_object v")
  case True
  then have "sequence (map (nested_line d) (Object_entries v)) = Inl e"
    using assms by (cases "sequence (map (nested_line d) (Object_entries v))") (auto simp: entry_lines_def)
  then obtain kv where kv: "kv \<in> set (Object_entries v)" "nested_line d kv = Inl e"
    using sequence_map_error by blast
  from nested_line_fails[OF kv(2)] entry_of_object[OF True kv(1), of d] show ?thesis by auto
next
  case False
  then have "formatValue d v = Inl e"
    using assms by (cases "formatValue d v") (auto simp: entry_lines_def)
  then show ?thesis by (rule formatValue_fails)
qed

lemma formatParams_fails:
  assumes "formatParams d c p = Inl e"
  shows "(e = TypeError \<and> has_bigint p) \<or> (e = RangeError \<and> \<not> fits d p)"
proof (cases p)
  case (JObj kvs)
  then have "sequence (map (entry_lines d) kvs) = Inl e"
    using assms by (cases "sequence (map (entry_lines d) kvs)") auto
  then obtain kv where kv: "kv \<in> set kvs" "entry_lines d kv = Inl e"
    using sequence_map_error by blast
  have "(e = TypeError \<and> has_bigint (snd kv)) \<or> (e = RangeError \<and> \<not> fits d (snd kv))"
    using entry_lines_fails[of d "fst kv" "snd kv" e] kv(2) by simp
  moreover have "fits d (JObj kvs) \<longrightarrow> fits d (snd kv)"
    using kv(1) fits_mono[of "d - 1" "snd kv" d] by auto
  ultimately show ?thesis using JObj kv(1) by auto
next
  case (JArr xs)
  then have "JSON_stringify d (JArr xs) = Inl e"
    using assms by (cases "JSON_stringify d (JArr xs)") (auto simp del: JSON_stringify.simps)
  then show ?thesis using JArr by (auto dest: JSON_stringify_fails simp del: JSON_stringify.simps)
qed (use assms in auto)

lemma formatStep_fails:
  "formatStep d step = Inl e \<Longrightarrow>
   (e = TypeError \<and> has_bigint (params step)) \<or> (e = RangeError \<and> \<not> fits d (params step))"
  unfolding formatStep_def by (rule formatParams_fails)

lemma formatStep_total:
  "\<not> has_bigint (params step) \<Longrightarrow> fits d (params step) \<Longrightarrow> \<exists>t. formatStep d step = Inr t"
  using formatStep_fails[of d step] by (cases "formatStep d step") auto

lemma push_steps_sequence:
  "push_steps d acc S = map_sum id ((@) acc) (sequence (map (formatStep d) S))"
proof (induction S arbitrary: acc)
  case Nil
  then show ?case by simp
next
  case (Cons step S)
  show ?case
  proof (cases "formatStep d step")
    case (Inl e)
    then show ?thesis by simp
  next
    case (Inr l)
    then show ?thesis
      by (cases "sequence (map (formatStep d) S)") (simp_all add: Cons.IH)
  qed
qed

lemma join_newline_lines:
  "join sep (x # xs) @ sep = concat (map (\<lambda>l. l @ sep) (x # xs))"
  by (induction xs arbitrary: x) simp_all

lemma last_join:
  "xs \<noteq> [] \<Longrightarrow> last xs \<noteq> [] \<Longrightarrow> join sep xs \<noteq> [] \<and> last (join sep xs) = last (last xs)"
proof (induction sep xs rule: join.induct)
  case (3 sep x y ys)
  then have "join sep (y # ys) \<noteq> [] \<and> last (join sep (y # ys)) = last (last (y # ys))"
    by simp
  then show ?case by simp
qed simp_all

lemma buildYaml_blocks:
  assumes "list_all2 (\<lambda>step block. formatStep d step = Inr block) S blocks"
  shows "buildYaml d A S = Inr (join [newline] ([''appId: '' @ A, ''---''] @ blocks) @ [newline])"
proof -
  have "sequence (map (formatStep d) S) = Inr blocks"
    using assms by (simp add: sequence_map_Inr_iff)
  then show ?thesis by (simp add: buildYaml_def push_steps_sequence)
qed

lemma buildYaml_fails_iff:
  "isl (buildYaml d A S) \<longleftrightarrow> (\<exists>step\<in>set S. isl (formatStep d step))"
proof -
  have "isl (buildYaml d A S) \<longleftrightarrow> (\<exists>e. sequence (map (formatStep d) S) = Inl e)"
    by (cases "sequence (map (formatStep d) S)") (simp_all add: buildYaml_def push_steps_sequence)
  also have "\<dots> \<longleftrightarrow> (\<exists>r\<in>set (map (formatStep d) S). isl r)"
    by (rule sequence_fails_iff)
  finally show ?thesis by simp
qed

lemma all_steps_render:
  assumes "\<forall>step\<in>set S. \<not> has_bigint (params step) \<and> fits d (params step)"
  shows "\<exists>blocks. list_all2 (\<lambda>step block. formatStep d step = Inr block) S blocks"
proof -
  have "\<not> (\<exists>r\<in>set (map (formatStep d) S). isl r)"
    using assms formatStep_total by fastforce
  then have "\<not> (\<exists>e. sequence (map (formatStep d) S) = Inl e)"
    using sequence_fails_iff by blast
  then obtain blocks where "sequence (map (formatStep d) S) = Inr blocks"
    by (cases "sequence (map (formatStep d) S)") auto
  then show ?thesis by (auto simp: sequence_map_Inr_iff)
qed

lemma buildYaml_one_newline:
  assumes "list_all2 (\<lambda>step block. formatStep d step = Inr block) S blocks"
    and "blocks \<noteq> [] \<longrightarrow> last blocks \<noteq> [] \<and> last (last blocks) \<noteq> newline"
  shows "\<exists>body. buildYaml d A S = Inr (body @ [newline]) \<and> body \<noteq> [] \<and> last body \<noteq> newline"
proof -
  let ?lines = "[''appId: '' @ A, ''---''] @ blocks"
  have l: "last ?lines \<noteq> [] \<and> last (last ?lines) \<noteq> newline"
    using assms(2) by (cases "blocks = []") simp_all
  then have "join [newline] ?lines \<noteq> [] \<and> last (join [newline] ?lines) = last (last ?lines)"
    by (intro last_join) simp_all
  then show ?thesis
    using buildYaml_blocks[OF assms(1), of A] l by (intro exI[of _ "join [newline] ?lines"]) simp
qed

lemma entry_lines_scalar:
  "\<not> is_object v \<Longrightarrow> formatValue d v = Inr t \<Longrightarrow>
   entry_lines d (k, v) = Inr (''      '' @ k @ '': '' @ template t)"
  by (simp add: entry_lines_def)

lemma entry_lines_nested:
  "is_object v \<Longrightarrow> list_all2 (\<lambda>kv l. nested_line d kv = Inr l) (Object_entries v) ls \<Longrightarrow>
   entry_lines d (k, v) = Inr (''      '' @ k @ '':'' @ [newline] @ join [newline] ls)"
  by (simp add: entry_lines_def sequence_map_Inr_iff[THEN iffD2])

lemma formatStep_object:
  "list_all2 (\<lambda>kv l. entry_lines d kv = Inr l) kvs ls \<Longrightarrow>
   formatStep d \<lparr>command = c, params = JObj kvs\<rparr>
     = Inr (''- '' @ c @ '':'' @ [newline] @ join [newline] ls)"
  by (simp add: formatStep_def sequence_map_Inr_iff[THEN iffD2])

lemma nested_index_lines:
  "list_all2 (\<lambda>x t. formatValue d x = Inr t) xs ts \<Longrightarrow>
   sequence (map (nested_line d) (index_from i xs))
     = Inr (map (\<lambda>(j, t). ''        '' @ show_nat j @ '': '' @ template t)
              (zip [i ..< i + length xs] ts))"
proof (induction xs ts arbitrary: i rule: list_all2_induct)
  case Nil
  then show ?case by simp
next
  case (Cons x xs t ts)
  have "i < i + length (x # xs)" by simp
  then have "[i ..< i + length (x # xs)] = i # [Suc i ..< Suc i + length xs]"
    using upt_conv_Cons[of i "i + length (x # xs)"] by simp
  then show ?case
    using Cons.hyps(1) Cons.IH[of "Suc i"] by (simp add: nested_line_def)
qed

lemma entry_lines_array:
  assumes "list_all2 (\<lambda>x t. formatValue d x = Inr t) xs ts"
  shows "entry_lines d (k, JArr xs)
     = Inr (''      '' @ k @ '':'' @ [newline] @ join [newline]
             (map (\<lambda>(j, t). ''        '' @ show_nat j @ '': '' @ template t)
                (zip [0 ..< length xs] ts)))"
  using nested_index_lines[OF assms, of 0] by (simp add: entry_lines_def)

lemma entry_lines_array_as_object:
  "entry_lines d (k, JArr xs) = entry_lines d (k, JObj (index_from 0 xs))"
  by (simp add: entry_lines_def)


lemma formatStep_nest:
  "formatStep d \<lparr>command = c, params = nest (Suc d) v\<rparr> = Inl RangeError"
proof -
  have "formatStep d \<lparr>command = c, params = nest (Suc d) v\<rparr>
      = map_sum id (\<lambda>t. ''- '' @ c @ '': '' @ template t) (JSON_stringify d (nest (Suc d) v))"
    by (simp add: formatStep_def del: JSON_stringify.simps)
  then show ?thesis by (simp only: JSON_stringify_nest map_sum.simps id_apply)
qed

text \<open>
  C1, as stated, fails twice. A step that \<open>formatStep\<close> cannot render makes
  \<open>buildYaml\<close> throw instead of returning a text: parameters that are a BigInt, or an
  array nested deeper than the stack allows (here 1001 levels on a stack for 1000). And
  the text does not always end in a single newline: the block of the parameters \<open>{}\<close>
  ends in a newline itself, so the document ends in two.
\<close>

theorem buildYaml_counterexample:
  "buildYaml 1000 ''com.example.app'' [\<lparr>command = ''eraseText'', params = JBigInt 5\<rparr>]
     = Inl TypeError \<and>
   buildYaml 1000 ''com.example.app'' [\<lparr>command = ''tapOn'', params = nest (Suc 1000) JNull\<rparr>]
     = Inl RangeError \<and>
   buildYaml 1000 ''com.example.app'' [\<lparr>command = ''tapOn'', params = JObj []\<rparr>]
     = Inr (''appId: com.example.app'' @ [newline] @ ''---'' @ [newline]
            @ ''- tapOn:'' @ [newline] @ [newline])"
proof (intro conjI)
  show "buildYaml 1000 ''com.example.app'' [\<lparr>command = ''eraseText'', params = JBigInt 5\<rparr>]
     = Inl TypeError"
    by (simp add: buildYaml_def formatStep_def)
  show "buildYaml 1000 ''com.example.app'' [\<lparr>command = ''tapOn'', params = nest (Suc 1000) JNull\<rparr>]
     = Inl RangeError"
  proof -
    have "formatStep 1000 \<lparr>command = ''tapOn'', params = nest 1001 JNull\<rparr> = Inl RangeError"
      using formatStep_nest[of 1000 "''tapOn''" JNull] by (simp del: nest.simps)
    then show ?thesis
      by (simp add: buildYaml_def del: nest.simps)
  qed
  show "buildYaml 1000 ''com.example.app'' [\<lparr>command = ''tapOn'', params = JObj []\<rparr>]
     = Inr (''appId: com.example.app'' @ [newline] @ ''---'' @ [newline]
            @ ''- tapOn:'' @ [newline] @ [newline])"
    by (simp add: buildYaml_def formatStep_def)
qed

text \<open>
  C1, amended. For every application id \<open>A\<close> and every list of steps \<open>S\<close> that
  \<open>formatStep\<close> renders, \<open>buildYaml A S\<close> is the header line \<open>appId: A\<close>, the
  separator line \<open>---\<close> and the \<open>length S\<close> blocks that \<open>formatStep\<close> produces, in the
  order of \<open>S\<close>, joined by newlines, with one newline appended; the text then ends in a
  single newline unless the last block ends in one. \<open>buildYaml\<close> throws exactly when
  \<open>formatStep\<close> throws for some step, which it does not when no parameters contain a
  BigInt or nest deeper than the stack allows. \<open>buildYaml "com.example.app" []\<close> is
  \<open>appId: com.example.app\n---\n\<close>.
\<close>

theorem buildYaml_document:
  "(list_all2 (\<lambda>step block. formatStep stack step = Inr block) S blocks \<longrightarrow>
      buildYaml stack A S = Inr (join [newline] ([''appId: '' @ A, ''---''] @ blocks) @ [newline]) \<and>
      join [newline] ([''appId: '' @ A, ''---''] @ blocks) @ [newline]
        = ''appId: '' @ A @ [newline] @ ''---'' @ [newline] @ concat (map (\<lambda>b. b @ [newline]) blocks) \<and>
      length blocks = length S \<and>
      ((blocks \<noteq> [] \<longrightarrow> last blocks \<noteq> [] \<and> last (last blocks) \<noteq> newline) \<longrightarrow>
         (\<exists>body. buildYaml stack A S = Inr (body @ [newline]) \<and> body \<noteq> [] \<and> last body \<noteq> newline))) \<and>
   (isl (buildYaml stack A S) \<longleftrightarrow> (\<exists>step\<in>set S. isl (formatStep stack step))) \<and>
   ((\<forall>step\<in>set S. \<not> has_bigint (params step) \<and> fits stack (params step)) \<longrightarrow>
      (\<exists>bs. list_all2 (\<lambda>step block. formatStep stack step = Inr block) S bs)) \<and>
   buildYaml stack ''com.example.app'' [] = Inr (''appId: com.example.app'' @ [newline] @ ''---'' @ [newline])"
proof (intro conjI impI)
  assume a: "list_all2 (\<lambda>step block. formatStep stack step = Inr block) S blocks"
  then show "buildYaml stack A S = Inr (join [newline] ([''appId: '' @ A, ''---''] @ blocks) @ [newline])"
    by (rule buildYaml_blocks)
  show "join [newline] ([''appId: '' @ A, ''---''] @ blocks) @ [newline]
        = ''appId: '' @ A @ [newline] @ ''---'' @ [newline] @ concat (map (\<lambda>b. b @ [newline]) blocks)"
    using join_newline_lines[of "[newline]" "''appId: '' @ A" "''---'' # blocks"] by simp
  show "length blocks = length S"
    using a by (simp add: list_all2_lengthD)
  show "\<exists>body. buildYaml stack A S = Inr (body @ [newline]) \<and> body \<noteq> [] \<and> last body \<noteq> newline"
    if "blocks \<noteq> [] \<longrightarrow> last blocks \<noteq> [] \<and> last (last blocks) \<noteq> newline"
    using a that by (rule buildYaml_one_newline)
next
  show "isl (buildYaml stack A S) \<longleftrightarrow> (\<exists>step\<in>set S. isl (formatStep stack step))"
    by (rule buildYaml_fails_iff)
next
  assume "\<forall>step\<in>set S. \<not> has_bigint (params step) \<and> fits stack (params step)"
  then show "\<exists>bs. list_all2 (\<lambda>step block. formatStep stack step = Inr block) S bs"
    by (rule all_steps_render)
next
  show "buildYaml stack ''com.example.app'' [] = Inr (''appId: com.example.app'' @ [newline] @ ''---'' @ [newline])"
    by (simp add: buildYaml_def)
qed

text \<open>The document of one \<open>launchApp\<close> step.\<close>

theorem buildYaml_document_witness:
  "list_all2 (\<lambda>step block. formatStep 1000 step = Inr block)
     [\<lparr>command = ''launchApp'', params = JStr ''com.test.app''\<rparr>]
     [''- launchApp: '' @ [dquote] @ ''com.test.app'' @ [dquote]] \<and>
   \<not> has_bigint (JStr ''com.test.app'') \<and> fits 1000 (JStr ''com.test.app'') \<and>
   buildYaml 1000 ''com.test.app'' [\<lparr>command = ''launchApp'', params = JStr ''com.test.app''\<rparr>]
     = Inr (''appId: com.test.app'' @ [newline] @ ''---'' @ [newline]
            @ ''- launchApp: '' @ [dquote] @ ''com.test.app'' @ [dquote] @ [newline]) \<and>
   \<not> isl (buildYaml 1000 ''com.test.app'' [\<lparr>command = ''launchApp'', params = JStr ''com.test.app''\<rparr>])"
proof -
  have h: "list_all2 (\<lambda>step block. formatStep 1000 step = Inr block)
     [\<lparr>command = ''launchApp'', params = JStr ''com.test.app''\<rparr>]
     [''- launchApp: '' @ [dquote] @ ''com.test.app'' @ [dquote]]"
    by (simp add: formatStep_def escapeYaml_def)
  show ?thesis
    using h buildYaml_document[of 1000 "[\<lparr>command = ''launchApp'', params = JStr ''com.test.app''\<rparr>]"
        "[''- launchApp: '' @ [dquote] @ ''com.test.app'' @ [dquote]]" "''com.test.app''"]
    by simp
qed

text \<open>
  C2, as stated, fails: \<open>formatStep\<close> is not total. Parameters that are a BigInt reach
  \<^verbatim>\<open>JSON.stringify\<close>, which throws a \<open>TypeError\<close>; and so do parameters that are an
  array nested deeper than the stack allows (here 1001 levels on a stack for 1000), on
  which it throws a \<open>RangeError\<close>.
\<close>

theorem formatStep_counterexample:
  "formatStep 1000 \<lparr>command = ''scroll'', params = JBigInt 10\<rparr> = Inl TypeError \<and>
   formatStep 1000 \<lparr>command = ''scroll'', params = nest (Suc 1000) JNull\<rparr> = Inl RangeError"
proof (rule conjI)
  show "formatStep 1000 \<lparr>command = ''scroll'', params = JBigInt 10\<rparr> = Inl TypeError"
    by (simp add: formatStep_def)
  show "formatStep 1000 \<lparr>command = ''scroll'', params = nest (Suc 1000) JNull\<rparr> = Inl RangeError"
    by (rule formatStep_nest)
qed

text \<open>
  C2, amended. \<open>formatStep\<close> applies the rules in this order: parameters \<open>undefined\<close> or
  \<open>null\<close> give the bare line; a string gives the quoted, escaped text; a number or a
  boolean gives the literal; a plain object gives the line \<open>- action:\<close> followed by the
  lines of its entries in order, an entry being \<open>key: value\<close> six spaces deep, or
  \<open>key:\<close> followed by the \<open>key: value\<close> lines of the value, eight spaces deep, when
  the value is itself an object; an array gives \<open>- action: \<close> and its JSON text. It
  returns a text unless \<^verbatim>\<open>JSON.stringify\<close> throws: it fails only with a \<open>TypeError\<close>
  on parameters that contain a BigInt, or with a \<open>RangeError\<close> on parameters that nest
  deeper than the stack allows, and it does fail on a BigInt and on an array nested one
  level deeper than that.
\<close>

theorem formatStep_rules:
  "(p = JUndefined \<or> p = JNull \<longrightarrow> formatStep stack \<lparr>command = c, params = p\<rparr> = Inr (''- '' @ c)) \<and>
   formatStep stack \<lparr>command = c, params = JStr s\<rparr>
     = Inr (''- '' @ c @ '': '' @ [dquote] @ escapeYaml s @ [dquote]) \<and>
   formatStep stack \<lparr>command = c, params = JNum n\<rparr> = Inr (''- '' @ c @ '': '' @ Number_toString n) \<and>
   formatStep stack \<lparr>command = c, params = JBool b\<rparr> = Inr (''- '' @ c @ '': '' @ Boolean_toString b) \<and>
   (list_all2 (\<lambda>kv l. entry_lines stack kv = Inr l) kvs ls \<longrightarrow>
      formatStep stack \<lparr>command = c, params = JObj kvs\<rparr>
        = Inr (''- '' @ c @ '':'' @ [newline] @ join [newline] ls)) \<and>
   (\<not> is_object v \<and> formatValue stack v = Inr t \<longrightarrow>
      entry_lines stack (k, v) = Inr (''      '' @ k @ '': '' @ template t)) \<and>
   (is_object w \<and> list_all2 (\<lambda>(nk, nv) l. \<exists>u. formatValue stack nv = Inr u \<and>
          l = ''        '' @ nk @ '': '' @ template u) (Object_entries w) nls \<longrightarrow>
      entry_lines stack (k, w) = Inr (''      '' @ k @ '':'' @ [newline] @ join [newline] nls)) \<and>
   formatStep stack \<lparr>command = c, params = JArr xs\<rparr>
     = map_sum id (\<lambda>j. ''- '' @ c @ '': '' @ template j) (JSON_stringify stack (JArr xs)) \<and>
   (\<not> has_bigint q \<and> fits stack q \<longrightarrow> (\<exists>r. formatStep stack \<lparr>command = c, params = q\<rparr> = Inr r)) \<and>
   (formatStep stack \<lparr>command = c, params = q\<rparr> = Inl e \<longrightarrow>
      (e = TypeError \<and> has_bigint q) \<or> (e = RangeError \<and> \<not> fits stack q)) \<and>
   formatStep stack \<lparr>command = c, params = JBigInt i\<rparr> = Inl TypeError \<and>
   formatStep stack \<lparr>command = c, params = nest (Suc stack) z\<rparr> = Inl RangeError"
proof (intro conjI impI)
  assume "p = JUndefined \<or> p = JNull"
  then show "formatStep stack \<lparr>command = c, params = p\<rparr> = Inr (''- '' @ c)"
    by (auto simp: formatStep_def)
next
  assume "list_all2 (\<lambda>kv l. entry_lines stack kv = Inr l) kvs ls"
  then show "formatStep stack \<lparr>command = c, params = JObj kvs\<rparr>
        = Inr (''- '' @ c @ '':'' @ [newline] @ join [newline] ls)"
    by (rule formatStep_object)
next
  assume "\<not> is_object v \<and> formatValue stack v = Inr t"
  then show "entry_lines stack (k, v) = Inr (''      '' @ k @ '': '' @ template t)"
    by (simp add: entry_lines_scalar)
next
  assume a: "is_object w \<and> list_all2 (\<lambda>(nk, nv) l. \<exists>u. formatValue stack nv = Inr u \<and>
          l = ''        '' @ nk @ '': '' @ template u) (Object_entries w) nls"
  have "(\<lambda>(nk, nv) l. \<exists>u. formatValue stack nv = Inr u \<and> l = ''        '' @ nk @ '': '' @ template u)
        = (\<lambda>kv l. nested_line stack kv = Inr l)"
  proof (intro ext)
    fix kv :: "string \<times> jsval" and l
    obtain nk nv where kv: "kv = (nk, nv)" by (cases kv)
    show "(case kv of (nk, nv) \<Rightarrow> \<lambda>l. \<exists>u. formatValue stack nv = Inr u \<and>
             l = ''        '' @ nk @ '': '' @ template u) l = (nested_line stack kv = Inr l)"
      unfolding kv by (cases "formatValue stack nv") (auto simp: nested_line_def)
  qed
  with a have "list_all2 (\<lambda>kv l. nested_line stack kv = Inr l) (Object_entries w) nls" by simp
  with a show "entry_lines stack (k, w) = Inr (''      '' @ k @ '':'' @ [newline] @ join [newline] nls)"
    by (simp add: entry_lines_nested)
next
  assume "\<not> has_bigint q \<and> fits stack q"
  then show "\<exists>r. formatStep stack \<lparr>command = c, params = q\<rparr> = Inr r"
    using formatStep_total[of "\<lparr>command = c, params = q\<rparr>" stack] by simp
next
  assume "formatStep stack \<lparr>command = c, params = q\<rparr> = Inl e"
  then show "(e = TypeError \<and> has_bigint q) \<or> (e = RangeError \<and> \<not> fits stack q)"
    using formatStep_fails[of stack "\<lparr>command = c, params = q\<rparr>" e] by simp
next
  show "formatStep stack \<lparr>command = c, params = nest (Suc stack) z\<rparr> = Inl RangeError"
    by (rule formatStep_nest)
next
  show "formatStep stack \<lparr>command = c, params = JBigInt i\<rparr> = Inl TypeError"
    by (simp add: formatStep_def)
qed (simp_all add: formatStep_def del: JSON_stringify.simps)

text \<open>The rules at \<open>null\<close>, at an object with a nested point, and at three arrays.\<close>

theorem formatStep_rules_witness:
  "formatStep 1000 \<lparr>command = ''tapOn'', params = JNull\<rparr> = Inr ''- tapOn'' \<and>
   formatStep 1000 \<lparr>command = ''tapOn'',
       params = JObj [(''point'', JObj [(''x'', JNum (Finite ''50'')), (''y'', JNum (Finite ''100''))]),
                      (''label'', JStr ''Login'')]\<rparr>
     = Inr (''- tapOn:'' @ [newline] @ ''      point:'' @ [newline] @ ''        x: 50'' @ [newline]
            @ ''        y: 100'' @ [newline] @ ''      label: '' @ [dquote] @ ''Login'' @ [dquote]) \<and>
   formatStep 1000 \<lparr>command = ''tapOn'', params = JArr [JNum (Finite ''1''), JNum (Finite ''2'')]\<rparr>
     = Inr ''- tapOn: [1,2]'' \<and>
   (\<exists>r. formatStep 1000 \<lparr>command = ''tapOn'', params = JArr [JArr [], JStr ''a'']\<rparr> = Inr r) \<and>
   formatStep 1000 \<lparr>command = ''tapOn'', params = JArr [JBigInt 1]\<rparr> = Inl TypeError \<and>
   has_bigint (JArr [JBigInt 1])"
proof -
  let ?pt = "JObj [(''x'', JNum (Finite ''50'')), (''y'', JNum (Finite ''100''))]"
  let ?nls = "[''        x: 50'', ''        y: 100'']"
  let ?ls = "[''      point:'' @ [newline] @ ''        x: 50'' @ [newline] @ ''        y: 100'',
              ''      label: '' @ [dquote] @ ''Login'' @ [dquote]]"
  have h1: "is_object ?pt \<and> list_all2 (\<lambda>(nk, nv) l. \<exists>u. formatValue 1000 nv = Inr u \<and>
          l = ''        '' @ nk @ '': '' @ template u) (Object_entries ?pt) ?nls"
    by (simp add: template_def)
  have h2: "\<not> is_object (JStr ''Login'') \<and>
      formatValue 1000 (JStr ''Login'') = Inr (Some ([dquote] @ ''Login'' @ [dquote]))"
    by (simp add: escapeYaml_def)
  have h4: "\<not> has_bigint (JArr [JArr [], JStr ''a'']) \<and> fits 1000 (JArr [JArr [], JStr ''a''])"
    by simp
  note r1 = formatStep_rules[where stack = 1000 and p = JNull and c = "''tapOn''" and k = "''point''"
      and w = ?pt and nls = ?nls and v = "JStr ''Login''"
      and t = "Some ([dquote] @ ''Login'' @ [dquote])"
      and q = "JArr [JArr [], JStr ''a'']" and xs = "[JNum (Finite ''1''), JNum (Finite ''2'')]"]
  note r2 = formatStep_rules[where stack = 1000 and p = JNull and c = "''tapOn''" and k = "''label''"
      and w = ?pt and nls = ?nls and v = "JStr ''Login''"
      and t = "Some ([dquote] @ ''Login'' @ [dquote])"
      and kvs = "[(''point'', ?pt), (''label'', JStr ''Login'')]" and ls = ?ls
      and q = "JArr [JBigInt 1]"]
  have e1: "entry_lines 1000 (''point'', ?pt) = Inr (?ls ! 0)"
    using r1 h1 by simp
  have e2: "entry_lines 1000 (''label'', JStr ''Login'') = Inr (?ls ! 1)"
    using r2 h2 by (simp add: template_def)
  have h3: "list_all2 (\<lambda>kv l. entry_lines 1000 kv = Inr l)
      [(''point'', ?pt), (''label'', JStr ''Login'')] ?ls"
    using e1 e2 by simp
  have "formatStep 1000 \<lparr>command = ''tapOn'', params = JNull\<rparr> = Inr ''- tapOn''"
    using r1 by simp
  moreover have "formatStep 1000 \<lparr>command = ''tapOn'',
       params = JObj [(''point'', ?pt), (''label'', JStr ''Login'')]\<rparr>
     = Inr (''- tapOn:'' @ [newline] @ ''      point:'' @ [newline] @ ''        x: 50'' @ [newline]
            @ ''        y: 100'' @ [newline] @ ''      label: '' @ [dquote] @ ''Login'' @ [dquote])"
    using r2 h3 by simp
  moreover have "formatStep 1000 \<lparr>command = ''tapOn'', params = JArr [JNum (Finite ''1''), JNum (Finite ''2'')]\<rparr>
     = Inr ''- tapOn: [1,2]''"
    using r1 by (simp add: template_def)
  moreover have "\<exists>r. formatStep 1000 \<lparr>command = ''tapOn'', params = JArr [JArr [], JStr ''a'']\<rparr> = Inr r"
    using r1 h4 by blast
  moreover have f: "formatStep 1000 \<lparr>command = ''tapOn'', params = JArr [JBigInt 1]\<rparr> = Inl TypeError"
    by (simp add: formatStep_def)
  moreover have "has_bigint (JArr [JBigInt 1])"
    using formatStep_rules[where stack = 1000 and c = "''tapOn''" and q = "JArr [JBigInt 1]"
        and e = TypeError] f
    by simp
  ultimately show ?thesis by blast
qed

text \<open>
  C9, as stated, fails in its last part: an array that is not the whole parameters value,
  but the value of a key of a nested object, is rendered as compact JSON.
\<close>

theorem nested_array_json_counterexample:
  "formatStep 1000 \<lparr>command = ''tapOn'',
      params = JObj [(''a'', JObj [(''b'', JArr [JNum (Finite ''1'')])])]\<rparr>
     = Inr (''- tapOn:'' @ [newline] @ ''      a:'' @ [newline] @ ''        b: [1]'')"
  by (simp add: formatStep_def entry_lines_def nested_line_def template_def)

text \<open>
  C9, amended. In parameters that are a plain object, an array that is the value of a key
  is rendered exactly as the object with the array's indices as keys: a nested block with
  one line \<open>index: value\<close> per element (\<open>0: 10\<close>), not compact JSON. Compact JSON is
  used for an array that is the whole parameters value and for an array that is a value
  inside a nested object or array.
\<close>

theorem array_value_block:
  "formatStep stack \<lparr>command = c, params = JObj (pre @ (k, JArr xs) # post)\<rparr>
     = formatStep stack \<lparr>command = c, params = JObj (pre @ (k, JObj (index_from 0 xs)) # post)\<rparr> \<and>
   (list_all2 (\<lambda>x t. formatValue stack x = Inr t) xs ts \<longrightarrow>
      formatStep stack \<lparr>command = c, params = JObj [(k, JArr xs)]\<rparr>
        = Inr (''- '' @ c @ '':'' @ [newline] @ ''      '' @ k @ '':'' @ [newline] @ join [newline]
                (map (\<lambda>(j, t). ''        '' @ show_nat j @ '': '' @ template t)
                   (zip [0 ..< length xs] ts)))) \<and>
   formatStep stack \<lparr>command = ''swipe'', params = JObj [(''a'', JArr [JNum (Finite ''10'')])]\<rparr>
     = Inr (''- swipe:'' @ [newline] @ ''      a:'' @ [newline] @ ''        0: 10'') \<and>
   formatStep stack \<lparr>command = c, params = JArr xs\<rparr>
     = map_sum id (\<lambda>t. ''- '' @ c @ '': '' @ template t) (JSON_stringify stack (JArr xs)) \<and>
   nested_line stack (nk, JArr xs)
     = map_sum id (\<lambda>t. ''        '' @ nk @ '': '' @ template t) (JSON_stringify stack (JArr xs))"
proof (intro conjI impI)
  show "formatStep stack \<lparr>command = c, params = JObj (pre @ (k, JArr xs) # post)\<rparr>
     = formatStep stack \<lparr>command = c, params = JObj (pre @ (k, JObj (index_from 0 xs)) # post)\<rparr>"
    by (simp add: formatStep_def entry_lines_array_as_object)
next
  assume "list_all2 (\<lambda>x t. formatValue stack x = Inr t) xs ts"
  then show "formatStep stack \<lparr>command = c, params = JObj [(k, JArr xs)]\<rparr>
        = Inr (''- '' @ c @ '':'' @ [newline] @ ''      '' @ k @ '':'' @ [newline] @ join [newline]
                (map (\<lambda>(j, t). ''        '' @ show_nat j @ '': '' @ template t)
                   (zip [0 ..< length xs] ts)))"
    by (simp add: formatStep_def entry_lines_array)
next
  show "formatStep stack \<lparr>command = ''swipe'', params = JObj [(''a'', JArr [JNum (Finite ''10'')])]\<rparr>
     = Inr (''- swipe:'' @ [newline] @ ''      a:'' @ [newline] @ ''        0: 10'')"
    by (simp add: formatStep_def entry_lines_def nested_line_def template_def show_nat.simps digit_def)
qed (simp_all add: formatStep_def nested_line_def del: JSON_stringify.simps)

text \<open>The block of an array with a number and a string.\<close>

theorem array_value_block_witness:
  "list_all2 (\<lambda>x t. formatValue 1000 x = Inr t) [JNum (Finite ''10''), JStr ''q'']
     [Some ''10'', Some ([dquote] @ ''q'' @ [dquote])] \<and>
   formatStep 1000 \<lparr>command = ''swipe'', params = JObj [(''a'', JArr [JNum (Finite ''10''), JStr ''q''])]\<rparr>
     = Inr (''- swipe:'' @ [newline] @ ''      a:'' @ [newline] @ ''        0: 10'' @ [newline]
            @ ''        1: '' @ [dquote] @ ''q'' @ [dquote])"
proof -
  have h: "list_all2 (\<lambda>x t. formatValue 1000 x = Inr t) [JNum (Finite ''10''), JStr ''q'']
      [Some ''10'', Some ([dquote] @ ''q'' @ [dquote])]"
    by (simp add: escapeYaml_def)
  have d: "show_nat 0 = ''0''" "show_nat (Suc 0) = ''1''"
    by (simp_all add: show_nat.simps digit_def)
  show ?thesis
    using h array_value_block[where stack = 1000 and xs = "[JNum (Finite ''10''), JStr ''q'']"
        and ts = "[Some ''10'', Some ([dquote] @ ''q'' @ [dquote])]" and c = "''swipe''" and k = "''a''"]
    by (simp add: d template_def)
qed


section \<open>Properties of the process runner\<close>

lemma listen_data:
  "list_all is_data pre \<Longrightarrow>
   listen out err (pre @ es)
     = listen (out @ concat (map stdout_chunk pre)) (err @ concat (map stderr_chunk pre)) es"
proof (induction pre arbitrary: out err)
  case Nil
  then show ?case by simp
next
  case (Cons e pre)
  then show ?case by (cases e) simp_all
qed

lemma listen_settles:
  "\<not> list_all is_data es \<Longrightarrow> \<exists>r. listen out err es = Some r"
proof (induction es arbitrary: out err)
  case Nil
  then show ?case by simp
next
  case (Cons e es)
  then show ?case by (cases e) simp_all
qed

lemma exec_callback_exit:
  "exitCode (exec_callback (execFile_error pe) out errout)
     = (case pe of Exited c \<Rightarrow> int c | _ \<Rightarrow> 1)"
  by (cases pe) (simp_all add: exec_callback_def)

lemma execStream_process_end:
  assumes "list_all is_data output"
  shows "\<exists>r. execStream_settles (Child (spawn_events pe output)) = Some (Inr r) \<and>
           exitCode r = (case pe of Exited c \<Rightarrow> int c | _ \<Rightarrow> 1)"
proof (cases pe)
  case (Exited c)
  then show ?thesis
    using listen_data[OF assms, of "[]" "[]" "[CloseEvent (Some (int c))]"]
    by (simp add: execStream_settles_def)
next
  case (Killed sig)
  then show ?thesis
    using listen_data[OF assms, of "[]" "[]" "[CloseEvent None]"]
    by (simp add: execStream_settles_def)
next
  case (SpawnFailed name msg)
  then show ?thesis by (simp add: execStream_settles_def)
qed

text \<open>
  C6. Both modes resolve to an \<open>ExecResult\<close> whenever the runtime reports the end of the
  process, through the callback or through a \<open>close\<close> or \<open>error\<close> event. Buffered:
  the exit code is the exit status of the process after a normal exit (0 when there is no
  error), the code of the error when that is a number, and 1 otherwise; \<open>stdout\<close> and
  \<open>stderr\<close> are the empty string when they are missing. Streaming: the exit code is the
  code of the \<open>close\<close> event, or 1 when it carries none.
\<close>

theorem process_runner_resolves:
  "(execFile_env env cmd args t = Callback err out errout \<longrightarrow>
      fst (exec env cmd args t w) = Some (Inr (exec_callback err out errout))) \<and>
   exitCode (exec_callback (execFile_error (Exited c)) out errout) = int c \<and>
   exitCode (exec_callback None out errout) = 0 \<and>
   (err_code e = NumCode n \<longrightarrow> exitCode (exec_callback (Some e) out errout) = n) \<and>
   ((\<forall>m. err_code e \<noteq> NumCode m) \<longrightarrow> exitCode (exec_callback (Some e) out errout) = 1) \<and>
   stdout (exec_callback err None errout) = [] \<and>
   stderr (exec_callback err out None) = [] \<and>
   stdout (exec_callback err (Some s) errout) = s \<and>
   stderr (exec_callback err out (Some s)) = s \<and>
   (spawn_env env i cmd args t = Child es \<and> \<not> list_all is_data es \<longrightarrow>
      (\<exists>r. fst (execStream env i cmd args t w) = Some (Inr r))) \<and>
   (list_all is_data pre \<longrightarrow>
      listen [] [] (pre @ CloseEvent code # post)
        = Some \<lparr>stdout = concat (map stdout_chunk pre), stderr = concat (map stderr_chunk pre),
                 exitCode = (case code of None \<Rightarrow> 1 | Some k \<Rightarrow> k)\<rparr>) \<and>
   (list_all is_data pre \<longrightarrow>
      (\<exists>r. execStream_settles (Child (spawn_events pe pre)) = Some (Inr r) \<and>
           exitCode r = (case pe of Exited k \<Rightarrow> int k | _ \<Rightarrow> 1)))"
proof (intro conjI impI)
  assume "execFile_env env cmd args t = Callback err out errout"
  then show "fst (exec env cmd args t w) = Some (Inr (exec_callback err out errout))"
    by (simp add: exec_def)
next
  show "exitCode (exec_callback (execFile_error (Exited c)) out errout) = int c"
    using exec_callback_exit[of "Exited c"] by simp
next
  assume "err_code e = NumCode n"
  then show "exitCode (exec_callback (Some e) out errout) = n"
    by (simp add: exec_callback_def)
next
  assume "\<forall>m. err_code e \<noteq> NumCode m"
  then show "exitCode (exec_callback (Some e) out errout) = 1"
    by (cases "err_code e") (simp_all add: exec_callback_def)
next
  assume "spawn_env env i cmd args t = Child es \<and> \<not> list_all is_data es"
  then show "\<exists>r. fst (execStream env i cmd args t w) = Some (Inr r)"
    using listen_settles[of es "[]" "[]"]
    by (auto simp: execStream_def execStream_settles_def)
next
  assume "list_all is_data pre"
  then show "listen [] [] (pre @ CloseEvent code # post)
        = Some \<lparr>stdout = concat (map stdout_chunk pre), stderr = concat (map stderr_chunk pre),
                 exitCode = (case code of None \<Rightarrow> 1 | Some k \<Rightarrow> k)\<rparr>"
    by (simp add: listen_data)
next
  assume "list_all is_data pre"
  then show "\<exists>r. execStream_settles (Child (spawn_events pe pre)) = Some (Inr r) \<and>
           exitCode r = (case pe of Exited k \<Rightarrow> int k | _ \<Rightarrow> 1)"
    by (rule execStream_process_end)
qed (simp_all add: exec_callback_def or_empty_def)

text \<open>A failing \<open>maestro --version\<close>, a passing flow and a missing executable.\<close>

theorem process_runner_resolves_witness:
  "fst (exec demo_env ''maestro'' [''--version''] 120000 empty_world)
     = Some (Inr \<lparr>stdout = [], stderr = ''maestro: command not found'', exitCode = 127\<rparr>) \<and>
   fst (execStream demo_env 0 ''maestro'' [''test'', ''flow.yaml''] 180000 empty_world)
     = Some (Inr \<lparr>stdout = ''Test passed'', stderr = [], exitCode = 0\<rparr>) \<and>
   exitCode (exec_callback (Some \<lparr>err_message = ''spawn maestro ENOENT'', err_code = StrCode ''ENOENT''\<rparr>)
      None None) = 1"
proof -
  let ?e = "\<lparr>err_message = ''Command failed'', err_code = NumCode 127\<rparr>"
  let ?es = "[StdoutData ''Test '', StdoutData ''passed'', CloseEvent (Some 0)]"
  have h1: "execFile_env demo_env ''maestro'' [''--version''] 120000
      = Callback (Some ?e) (Some []) (Some ''maestro: command not found'')"
    by (simp add: demo_env_def)
  have h2: "spawn_env demo_env 0 ''maestro'' [''test'', ''flow.yaml''] 180000 = Child ?es \<and>
      \<not> list_all is_data ?es"
    by (simp add: demo_env_def)
  have h3: "\<forall>m. err_code \<lparr>err_message = ''spawn maestro ENOENT'', err_code = StrCode ''ENOENT''\<rparr> \<noteq> NumCode m"
    by simp
  note r1 = process_runner_resolves[where env = demo_env and cmd = "''maestro''"
      and args = "[''--version'']" and t = 120000 and err = "Some ?e" and out = "Some []"
      and errout = "Some ''maestro: command not found''" and w = empty_world and e = ?e and n = 127]
  note r2 = process_runner_resolves[where env = demo_env and cmd = "''maestro''" and i = 0
      and args = "[''test'', ''flow.yaml'']" and t = 180000 and es = ?es and w = empty_world
      and e = "\<lparr>err_message = ''spawn maestro ENOENT'', err_code = StrCode ''ENOENT''\<rparr>"
      and out = None and errout = None
      and pre = "[StdoutData ''Test '', StdoutData ''passed'']" and code = "Some 0" and post = "[]"]
  have "fst (exec demo_env ''maestro'' [''--version''] 120000 empty_world)
     = Some (Inr \<lparr>stdout = [], stderr = ''maestro: command not found'', exitCode = 127\<rparr>)"
    using r1 h1 by (simp add: exec_callback_def or_empty_def)
  moreover have "fst (execStream demo_env 0 ''maestro'' [''test'', ''flow.yaml''] 180000 empty_world)
     = Some (Inr \<lparr>stdout = ''Test passed'', stderr = [], exitCode = 0\<rparr>)"
    using r2 h2 by (simp add: execStream_def execStream_settles_def)
  moreover have "exitCode (exec_callback (Some \<lparr>err_message = ''spawn maestro ENOENT'', err_code = StrCode ''ENOENT''\<rparr>)
      None None) = 1"
    using r2 h3 by simp
  ultimately show ?thesis by blast
qed

text \<open>
  C7, as stated, fails for the buffered mode: when the executable is missing, \<open>exec\<close>
  resolves with exit code 1 and the \<open>stderr\<close> the runtime collected, which is empty; the
  message of the error is not put there.
\<close>

theorem exec_spawn_failure_counterexample:
  "fst (exec (demo_env\<lparr>execFile_env := (\<lambda>c a t.
          Callback (execFile_error (SpawnFailed ''ENOENT'' ''spawn maestro ENOENT'')) (Some []) (Some []))\<rparr>)
        ''maestro'' [''--version''] 120000 empty_world)
     = Some (Inr \<lparr>stdout = [], stderr = [], exitCode = 1\<rparr>)"
  by (simp add: exec_def exec_callback_def or_empty_def demo_env_def)

text \<open>
  C7, amended. When the process cannot be started, both modes resolve with exit code 1:
  the buffered mode with the \<open>stdout\<close> and \<open>stderr\<close> that came with the error,
  unchanged, and the streaming mode with a newline and the message of the error appended
  to \<open>stderr\<close>.
\<close>

theorem spawn_failure_surfaced:
  "exec_callback (execFile_error (SpawnFailed name msg)) out errout
     = \<lparr>stdout = or_empty out, stderr = or_empty errout, exitCode = 1\<rparr> \<and>
   execStream_settles (Child (spawn_events (SpawnFailed name msg) output))
     = Some (Inr \<lparr>stdout = [], stderr = [newline] @ msg, exitCode = 1\<rparr>) \<and>
   listen out' err' (ErrorEvent msg # es)
     = Some \<lparr>stdout = out', stderr = err' @ [newline] @ msg, exitCode = 1\<rparr>"
  by (simp add: exec_callback_def execStream_settles_def)

section \<open>Properties of the orchestrator\<close>

lemma trace_log [simp]: "trace (log e w) = trace w @ [e]"
  by (simp add: log_def)

lemma dirs_log [simp]: "dirs (log e w) = dirs w"
  by (simp add: log_def)

lemma files_log [simp]: "files (log e w) = files w"
  by (simp add: log_def)


text \<open>
  C4. \<open>executeSteps\<close> is to delete the scratch directory it has made on every exit
  path, and to swallow a failure of the deletion. The code misses one exit path: the flow
  file is written before the \<^verbatim>\<open>try\<close>, so when the write fails (here with
  \<open>ENOSPC\<close>) the call rejects, nothing is removed, and the directory stays.
\<close>

theorem executeSteps_write_failure_leaks:
  "fst (executeSteps (demo_env\<lparr>writeFile_env := (\<lambda>p. Some (SystemError ''ENOSPC''))\<rparr>)
          ''com.example.app'' [] None 180000 empty_world)
     = Some (Inl (SystemError ''ENOSPC'')) \<and>
   dirs (snd (executeSteps (demo_env\<lparr>writeFile_env := (\<lambda>p. Some (SystemError ''ENOSPC''))\<rparr>)
          ''com.example.app'' [] None 180000 empty_world))
     = {''/tmp/maestro-mcp-AbC123''} \<and>
   trace (snd (executeSteps (demo_env\<lparr>writeFile_env := (\<lambda>p. Some (SystemError ''ENOSPC''))\<rparr>)
          ''com.example.app'' [] None 180000 empty_world))
     = [Mkdtemp ''/tmp/maestro-mcp-'',
        WriteFile ''/tmp/maestro-mcp-AbC123/flow.yaml''
          (''appId: com.example.app'' @ [newline] @ ''---'' @ [newline])]"
  by (simp add: executeSteps_def buildYaml_def mkdtemp_def writeFile_def path_join_def
      demo_env_def empty_world_def)

text \<open>
  On the exit paths behind the \<^verbatim>\<open>try\<close> the deletion is there: once the flow file is
  written, whether the run resolves (with exit code 0 or another) or throws, the removal
  is the last effect, the caller gets the outcome of the run whatever the removal does,
  and the directory is gone when the removal succeeds.
\<close>

lemma executeSteps_cleanup:
  assumes "buildYaml (stack_depth env) appId steps = Inr doc"
    and "mkdtemp_env env (path_join (tmpdir env) ''maestro-mcp-'') = Inr rnd"
    and "dir = path_join (tmpdir env) ''maestro-mcp-'' @ rnd"
    and "writeFile_env env (path_join dir ''flow.yaml'') = None"
    and "execStream_settles (spawn_env env 0 ''maestro''
            (device_args deviceId @ [''test'', path_join dir ''flow.yaml'']) timeoutMs) = Some r"
  shows "fst (executeSteps env appId steps deviceId timeoutMs w)
           = Some (map_sum id (\<lambda>res. \<lparr>yaml = doc, result = res\<rparr>) r) \<and>
         trace (snd (executeSteps env appId steps deviceId timeoutMs w))
           = trace w @ [Mkdtemp (path_join (tmpdir env) ''maestro-mcp-''),
                        WriteFile (path_join dir ''flow.yaml'') doc,
                        Spawn ''maestro'' (device_args deviceId @ [''test'', path_join dir ''flow.yaml''])
                          timeoutMs,
                        Rm dir] \<and>
         (rm_env env dir = None \<longrightarrow>
            dir \<notin> dirs (snd (executeSteps env appId steps deviceId timeoutMs w)) \<and>
            files (snd (executeSteps env appId steps deviceId timeoutMs w)) (path_join dir ''flow.yaml'')
              = None)"
proof -
  have run: "executeSteps env appId steps deviceId timeoutMs w
      = (Some (map_sum id (\<lambda>res. \<lparr>yaml = doc, result = res\<rparr>) r),
         snd (rm env dir
           (log (Spawn ''maestro'' (device_args deviceId @ [''test'', path_join dir ''flow.yaml'']) timeoutMs)
             (log (WriteFile (path_join dir ''flow.yaml'') doc)
               ((log (Mkdtemp (path_join (tmpdir env) ''maestro-mcp-''))
                  (w\<lparr>dirs := insert dir (dirs w)\<rparr>))
                \<lparr>files := (files w)(path_join dir ''flow.yaml'' \<mapsto> doc)\<rparr>)))))"
    using assms
    by (simp add: executeSteps_def mkdtemp_def writeFile_def runFlow_def execStream_def)
  have pre: "prefix (dir @ ''/'') (path_join dir ''flow.yaml'')"
    by (simp add: path_join_def)
  show ?thesis
    unfolding run using pre
    by (cases "rm_env env dir") (simp_all add: rm_def)
qed

text \<open>A passing run on one device.\<close>

lemma executeSteps_cleanup_example:
  "fst (executeSteps demo_env ''com.example.app'' [] (Some ''emulator-5554'') 180000 empty_world)
     = Some (Inr \<lparr>yaml = ''appId: com.example.app'' @ [newline] @ ''---'' @ [newline],
                  result = \<lparr>stdout = ''Test passed'', stderr = [], exitCode = 0\<rparr>\<rparr>) \<and>
   ''/tmp/maestro-mcp-AbC123''
     \<notin> dirs (snd (executeSteps demo_env ''com.example.app'' [] (Some ''emulator-5554'') 180000 empty_world))"
proof -
  have h1: "buildYaml (stack_depth demo_env) ''com.example.app'' []
      = Inr (''appId: com.example.app'' @ [newline] @ ''---'' @ [newline])"
    by (simp add: buildYaml_def)
  have h2: "mkdtemp_env demo_env (path_join (tmpdir demo_env) ''maestro-mcp-'') = Inr ''AbC123''"
    by (simp add: demo_env_def)
  have h3: "''/tmp/maestro-mcp-AbC123'' = path_join (tmpdir demo_env) ''maestro-mcp-'' @ ''AbC123''"
    by (simp add: demo_env_def path_join_def)
  have h4: "writeFile_env demo_env (path_join ''/tmp/maestro-mcp-AbC123'' ''flow.yaml'') = None"
    by (simp add: demo_env_def)
  have h5: "execStream_settles (spawn_env demo_env 0 ''maestro''
            (device_args (Some ''emulator-5554'') @ [''test'', path_join ''/tmp/maestro-mcp-AbC123'' ''flow.yaml''])
            180000)
      = Some (Inr \<lparr>stdout = ''Test passed'', stderr = [], exitCode = 0\<rparr>)"
    by (simp add: demo_env_def execStream_settles_def)
  have h6: "rm_env demo_env ''/tmp/maestro-mcp-AbC123'' = None"
    by (simp add: demo_env_def)
  show ?thesis
    using executeSteps_cleanup[OF h1 h2 h3 h4 h5, of empty_world] h6 by simp
qed

lemma takeScreenshot_world:
  "snd (takeScreenshot env deviceId outputPath w) =
     (case mkdtemp_env env (path_join (tmpdir env) ''maestro-mcp-screenshot-'') of
        Inl e \<Rightarrow> log (Mkdtemp (path_join (tmpdir env) ''maestro-mcp-screenshot-'')) w
      | Inr rnd \<Rightarrow>
          (let dir = path_join (tmpdir env) ''maestro-mcp-screenshot-'' @ rnd;
               shot = (case outputPath of None \<Rightarrow> path_join dir ''screenshot.png'' | Some p \<Rightarrow> p);
               doc = ''---'' @ [newline] @ ''- takeScreenshot: '' @ shot @ [newline];
               flowPath = path_join dir ''screenshot_flow.yaml'';
               w1 = log (Mkdtemp (path_join (tmpdir env) ''maestro-mcp-screenshot-''))
                      (w\<lparr>dirs := insert dir (dirs w)\<rparr>)
           in case writeFile_env env flowPath of
                Some e \<Rightarrow> log (WriteFile flowPath doc) w1
              | None \<Rightarrow>
                  log (Spawn ''maestro'' (device_args deviceId @ [''test'', flowPath]) 180000)
                    (log (WriteFile flowPath doc) (w1\<lparr>files := (files w1)(flowPath \<mapsto> doc)\<rparr>))))"
  by (simp add: takeScreenshot_def mkdtemp_def writeFile_def execStream_def Let_def
      split: sum.splits option.splits)

lemma takeScreenshot_outcome:
  assumes "mkdtemp_env env (path_join (tmpdir env) ''maestro-mcp-screenshot-'') = Inr rnd"
    and "dir = path_join (tmpdir env) ''maestro-mcp-screenshot-'' @ rnd"
    and "shot = (case outputPath of None \<Rightarrow> path_join dir ''screenshot.png'' | Some p \<Rightarrow> p)"
  shows "fst (takeScreenshot env deviceId outputPath w) =
     (case writeFile_env env (path_join dir ''screenshot_flow.yaml'') of
        Some e \<Rightarrow> Some (Inl e)
      | None \<Rightarrow>
          map_option (map_sum id (\<lambda>res. \<lparr>path = shot, shot_result = res\<rparr>))
            (execStream_settles (spawn_env env 0 ''maestro''
               (device_args deviceId @ [''test'', path_join dir ''screenshot_flow.yaml'']) 180000)))"
  using assms
  by (simp add: takeScreenshot_def mkdtemp_def writeFile_def execStream_def Let_def
      split: option.splits)

text \<open>
  C10. \<open>takeScreenshot\<close> begins by making a scratch directory, whatever its arguments,
  and never removes one. When the directory is made it is there at the end on every
  path, and so is the flow file once written, also when an output path is given; the
  path returned is the given output path, or else \<open>screenshot.png\<close> in the new directory.
\<close>

theorem takeScreenshot_keeps_directory:
  "(\<exists>rest. trace (snd (takeScreenshot env deviceId outputPath w))
        = trace w @ Mkdtemp (path_join (tmpdir env) ''maestro-mcp-screenshot-'') # rest \<and>
        (\<forall>d. Rm d \<notin> set rest)) \<and>
   (mkdtemp_env env (path_join (tmpdir env) ''maestro-mcp-screenshot-'') = Inr rnd \<and>
    dir = path_join (tmpdir env) ''maestro-mcp-screenshot-'' @ rnd \<longrightarrow>
      dirs (snd (takeScreenshot env deviceId outputPath w)) = insert dir (dirs w) \<and>
      (writeFile_env env (path_join dir ''screenshot_flow.yaml'') = None \<longrightarrow>
         files (snd (takeScreenshot env deviceId outputPath w)) (path_join dir ''screenshot_flow.yaml'')
           = Some (''---'' @ [newline] @ ''- takeScreenshot: ''
                   @ (case outputPath of None \<Rightarrow> path_join dir ''screenshot.png'' | Some p \<Rightarrow> p)
                   @ [newline])) \<and>
      (\<forall>res. fst (takeScreenshot env deviceId outputPath w) = Some (Inr res) \<longrightarrow>
         path res = (case outputPath of None \<Rightarrow> path_join dir ''screenshot.png'' | Some p \<Rightarrow> p)))"
proof (intro conjI impI)
  show "\<exists>rest. trace (snd (takeScreenshot env deviceId outputPath w))
        = trace w @ Mkdtemp (path_join (tmpdir env) ''maestro-mcp-screenshot-'') # rest \<and>
        (\<forall>d. Rm d \<notin> set rest)"
    unfolding takeScreenshot_world
    by (simp add: Let_def split: sum.splits option.splits)
next
  assume a: "mkdtemp_env env (path_join (tmpdir env) ''maestro-mcp-screenshot-'') = Inr rnd \<and>
    dir = path_join (tmpdir env) ''maestro-mcp-screenshot-'' @ rnd"
  then show "dirs (snd (takeScreenshot env deviceId outputPath w)) = insert dir (dirs w)"
    unfolding takeScreenshot_world
    by (simp add: Let_def split: option.splits)
  show "files (snd (takeScreenshot env deviceId outputPath w)) (path_join dir ''screenshot_flow.yaml'')
           = Some (''---'' @ [newline] @ ''- takeScreenshot: ''
                   @ (case outputPath of None \<Rightarrow> path_join dir ''screenshot.png'' | Some p \<Rightarrow> p)
                   @ [newline])"
    if "writeFile_env env (path_join dir ''screenshot_flow.yaml'') = None"
    unfolding takeScreenshot_world using a that
    by (simp add: Let_def split: option.splits)
  show "\<forall>res. fst (takeScreenshot env deviceId outputPath w) = Some (Inr res) \<longrightarrow>
         path res = (case outputPath of None \<Rightarrow> path_join dir ''screenshot.png'' | Some p \<Rightarrow> p)"
  proof (intro allI impI)
    fix res
    assume r: "fst (takeScreenshot env deviceId outputPath w) = Some (Inr res)"
    let ?shot = "case outputPath of None \<Rightarrow> path_join dir ''screenshot.png'' | Some p \<Rightarrow> p"
    from a have o: "fst (takeScreenshot env deviceId outputPath w) =
       (case writeFile_env env (path_join dir ''screenshot_flow.yaml'') of
          Some e \<Rightarrow> Some (Inl e)
        | None \<Rightarrow>
            map_option (map_sum id (\<lambda>res. \<lparr>path = ?shot, shot_result = res\<rparr>))
              (execStream_settles (spawn_env env 0 ''maestro''
                 (device_args deviceId @ [''test'', path_join dir ''screenshot_flow.yaml'']) 180000)))"
      by (intro takeScreenshot_outcome) simp_all
    from r obtain z :: "error + ExecResult" where "map_sum id (\<lambda>x. \<lparr>path = ?shot, shot_result = x\<rparr>) z = Inr res"
      unfolding o by (auto split: option.splits)
    then show "path res = ?shot"
      by (cases z) auto
  qed
qed

text \<open>A screenshot to a given path, and one to the scratch directory.\<close>

theorem takeScreenshot_keeps_directory_witness:
  "dirs (snd (takeScreenshot demo_env None (Some ''/custom/path/shot.png'') empty_world))
     = {''/tmp/maestro-mcp-screenshot-AbC123''} \<and>
   files (snd (takeScreenshot demo_env None (Some ''/custom/path/shot.png'') empty_world))
       ''/tmp/maestro-mcp-screenshot-AbC123/screenshot_flow.yaml''
     = Some (''---'' @ [newline] @ ''- takeScreenshot: /custom/path/shot.png'' @ [newline]) \<and>
   map_option (map_sum id path) (fst (takeScreenshot demo_env None (Some ''/custom/path/shot.png'') empty_world))
     = Some (Inr ''/custom/path/shot.png'') \<and>
   map_option (map_sum id path) (fst (takeScreenshot demo_env None None empty_world))
     = Some (Inr ''/tmp/maestro-mcp-screenshot-AbC123/screenshot.png'')"
proof -
  let ?dir = "''/tmp/maestro-mcp-screenshot-AbC123''"
  have h: "mkdtemp_env demo_env (path_join (tmpdir demo_env) ''maestro-mcp-screenshot-'') = Inr ''AbC123'' \<and>
      ?dir = path_join (tmpdir demo_env) ''maestro-mcp-screenshot-'' @ ''AbC123''"
    by (simp add: demo_env_def path_join_def)
  have hw: "writeFile_env demo_env (path_join ?dir ''screenshot_flow.yaml'') = None"
    by (simp add: demo_env_def)
  have r1: "\<exists>res. fst (takeScreenshot demo_env None (Some ''/custom/path/shot.png'') empty_world) = Some (Inr res)"
    by (simp add: takeScreenshot_def mkdtemp_def writeFile_def execStream_def execStream_settles_def
        demo_env_def Let_def)
  have r2: "\<exists>res. fst (takeScreenshot demo_env None None empty_world) = Some (Inr res)"
    by (simp add: takeScreenshot_def mkdtemp_def writeFile_def execStream_def execStream_settles_def
        demo_env_def Let_def)
  note t1 = takeScreenshot_keeps_directory[where env = demo_env and rnd = "''AbC123''"
      and dir = ?dir and deviceId = None
      and outputPath = "Some ''/custom/path/shot.png''" and w = empty_world,
      THEN conjunct2, THEN mp, OF h]
  note t2 = takeScreenshot_keeps_directory[where env = demo_env and rnd = "''AbC123''"
      and dir = ?dir and deviceId = None
      and outputPath = None and w = empty_world, THEN conjunct2, THEN mp, OF h]
  have "dirs (snd (takeScreenshot demo_env None (Some ''/custom/path/shot.png'') empty_world))
     = {?dir}"
    using t1[THEN conjunct1] by (simp add: empty_world_def)
  moreover have "files (snd (takeScreenshot demo_env None (Some ''/custom/path/shot.png'') empty_world))
       ''/tmp/maestro-mcp-screenshot-AbC123/screenshot_flow.yaml''
     = Some (''---'' @ [newline] @ ''- takeScreenshot: /custom/path/shot.png'' @ [newline])"
    using t1[THEN conjunct2, THEN conjunct1, THEN mp, OF hw] by (simp add: path_join_def)
  moreover have "map_option (map_sum id path) (fst (takeScreenshot demo_env None (Some ''/custom/path/shot.png'') empty_world))
     = Some (Inr ''/custom/path/shot.png'')"
    using t1[THEN conjunct2, THEN conjunct2] r1 by auto
  moreover have "map_option (map_sum id path) (fst (takeScreenshot demo_env None None empty_world))
     = Some (Inr ''/tmp/maestro-mcp-screenshot-AbC123/screenshot.png'')"
    using t2[THEN conjunct2, THEN conjunct2] r2 by (auto simp: path_join_def)
  ultimately show ?thesis by blast
qed

lemma trace_settle [simp]: "trace (settle seen w) = trace w @ map Settled seen"
  by (simp add: settle_def)

lemma dirs_settle [simp]: "dirs (settle seen w) = dirs w"
  by (simp add: settle_def)

lemma fulfilled_all: "fulfilled (map (\<lambda>r. Some (Inr r)) rs) = rs"
  by (induction rs) (simp_all add: fulfilled_def map_filter_simps)

lemma all_seen_iff: "all_seen seen n \<longleftrightarrow> {..<n} \<subseteq> set seen"
  by (auto simp: all_seen_def list_all_iff)

lemma await_all_fulfilled:
  assumes "ps = map (\<lambda>r. Some (Inr r)) rs"
    and "distinct (seen @ order)"
    and "set (seen @ order) = {..<length ps}"
  shows "await_all ps seen order = (FulfilledWith rs, seen @ order)"
  using assms(2,3)
proof (induction order arbitrary: seen)
  case Nil
  then show ?case by (simp add: all_seen_iff fulfilled_all assms(1))
next
  case (Cons i order)
  from Cons.prems have i: "i < length ps" "i \<notin> set seen" by auto
  then have "\<not> all_seen seen (length ps)" by (auto simp: all_seen_iff)
  moreover have "ps ! i = Some (Inr (rs ! i))" using i assms(1) by simp
  moreover have "await_all ps (seen @ [i]) order = (FulfilledWith rs, (seen @ [i]) @ order)"
    using Cons.prems by (intro Cons.IH) simp_all
  ultimately show ?case using i by simp
qed

lemma launch_all_eq:
  "launch_all env flowPath t i ds w =
     (map (\<lambda>(j, d). execStream_settles (spawn_env env j ''maestro''
                        (device_args (Some d) @ [''test'', flowPath]) t))
        (zip [i ..< i + length ds] ds),
      w\<lparr>trace := trace w @ map (\<lambda>d. Spawn ''maestro'' (device_args (Some d) @ [''test'', flowPath]) t) ds\<rparr>)"
proof (induction ds arbitrary: i w)
  case Nil
  then show ?case by simp
next
  case (Cons d ds)
  have "i < i + length (d # ds)" by simp
  then have u: "[i ..< i + length (d # ds)] = i # [Suc i ..< Suc i + length ds]"
    using upt_conv_Cons[of i "i + length (d # ds)"] by simp
  show ?case
    unfolding u by (simp add: Cons.IH runFlow_def execStream_def log_def)
qed

lemma dom_collect:
  "dom (collect entries m) = dom m \<union> (fst ` set entries - {''__proto__''})"
proof (induction entries arbitrary: m)
  case Nil
  then show ?case by simp
next
  case (Cons e entries)
  obtain d r where e: "e = (d, r)" by (cases e)
  show ?case unfolding e by (simp add: Cons.IH) auto
qed

lemma collect_notin: "k \<notin> fst ` set entries \<Longrightarrow> collect entries m k = m k"
proof (induction entries arbitrary: m)
  case Nil
  then show ?case by simp
next
  case (Cons e entries)
  obtain d r where e: "e = (d, r)" by (cases e)
  from Cons.prems have "k \<noteq> d" "k \<notin> fst ` set entries" unfolding e by auto
  then show ?case unfolding e by (simp add: Cons.IH)
qed

lemma collect_last:
  "length ds = length rs \<Longrightarrow> j < length ds \<Longrightarrow> ds ! j \<noteq> ''__proto__'' \<Longrightarrow>
   ds ! j \<notin> set (drop (Suc j) ds) \<Longrightarrow> collect (zip ds rs) m (ds ! j) = Some (rs ! j)"
proof (induction ds rs arbitrary: j m rule: list_induct2)
  case Nil
  then show ?case by simp
next
  case (Cons d ds r rs)
  show ?case
  proof (cases j)
    case 0
    then have d: "d \<noteq> ''__proto__''" "d \<notin> set ds" using Cons.prems by simp_all
    have "fst ` set (zip ds rs) = set (map fst (zip ds rs))" by simp
    also have "\<dots> = set ds" using Cons.hyps by (simp only: map_fst_zip)
    finally have "d \<notin> fst ` set (zip ds rs)" using d(2) by simp
    then have "collect (zip ds rs) (m(d \<mapsto> r)) d = (m(d \<mapsto> r)) d" by (rule collect_notin)
    then show ?thesis using 0 d(1) by simp
  next
    case (Suc i)
    then have "i < length ds" "ds ! i \<noteq> ''__proto__''" "ds ! i \<notin> set (drop (Suc i) ds)"
      using Cons.prems by simp_all
    then have "collect (zip ds rs) (if d = ''__proto__'' then m else m(d \<mapsto> r)) (ds ! i) = Some (rs ! i)"
      by (rule Cons.IH)
    then show ?thesis using Suc by simp
  qed
qed

lemma executeStepsMultiDevice_unfold:
  assumes "buildYaml (stack_depth env) appId steps = Inr doc"
    and "mkdtemp_env env (path_join (tmpdir env) ''maestro-mcp-'') = Inr rnd"
    and "dir = path_join (tmpdir env) ''maestro-mcp-'' @ rnd"
    and "flowPath = path_join dir ''flow.yaml''"
    and "writeFile_env env flowPath = None"
    and "w3 = w\<lparr>dirs := insert dir (dirs w), files := (files w)(flowPath \<mapsto> doc),
              trace := trace w @ [Mkdtemp (path_join (tmpdir env) ''maestro-mcp-''), WriteFile flowPath doc]
                @ map (\<lambda>d. Spawn ''maestro'' (device_args (Some d) @ [''test'', flowPath]) timeoutMs) deviceIds\<rparr>"
    and "ps = map (\<lambda>(j, d). execStream_settles (spawn_env env j ''maestro''
                        (device_args (Some d) @ [''test'', flowPath]) timeoutMs))
               (zip [0 ..< length deviceIds] deviceIds)"
  shows "executeStepsMultiDevice env appId steps deviceIds timeoutMs w =
     (case await_all ps [] (settle_order env) of
        (Pending, seen) \<Rightarrow> (None, settle seen w3)
      | (RejectedWith e, seen) \<Rightarrow> (Some (Inl e), snd (rm env dir (settle seen w3)))
      | (FulfilledWith rs, seen) \<Rightarrow>
          (Some (Inr \<lparr>multi_yaml = doc, results = collect (zip deviceIds rs) Map.empty\<rparr>),
           snd (rm env dir (settle seen w3))))"
proof -
  obtain j seen where aw: "await_all ps [] (settle_order env) = (j, seen)"
    by (cases "await_all ps [] (settle_order env)")
  show ?thesis
    unfolding aw using aw assms
    by (cases j)
       (simp_all add: executeStepsMultiDevice_def mkdtemp_def writeFile_def launch_all_eq log_def)
qed

lemma trace_rm [simp]: "trace (snd (rm env dir w)) = trace w @ [Rm dir]"
  by (cases "rm_env env dir") (simp_all add: rm_def)

lemma dirs_rm: "rm_env env dir = None \<Longrightarrow> dir \<notin> dirs (snd (rm env dir w))"
  by (simp add: rm_def)

text \<open>
  C5. \<open>executeStepsMultiDevice\<close> is to let each invocation complete on its own, so
  that a failure on one device does not touch the results of the others, and to return
  one entry per device id. The code joins the invocations with \<^verbatim>\<open>Promise.all\<close>: when
  \<^verbatim>\<open>spawn\<close> throws for the second of two devices, the call rejects, no mapping is
  returned, the result of the first device is lost, and the directory is removed while
  the child of the first device has not settled.
\<close>

theorem multi_device_rejection_loses_results:
  "fst (executeStepsMultiDevice rejecting_env ''com.test.app'' [] [''dev-A'', ''dev-B''] 180000 empty_world)
     = Some (Inl (SystemError ''ERR_INVALID_ARG_VALUE'')) \<and>
   trace (snd (executeStepsMultiDevice rejecting_env ''com.test.app'' [] [''dev-A'', ''dev-B'']
                 180000 empty_world))
     = [Mkdtemp ''/tmp/maestro-mcp-'',
        WriteFile ''/tmp/maestro-mcp-AbC123/flow.yaml''
          (''appId: com.test.app'' @ [newline] @ ''---'' @ [newline]),
        Spawn ''maestro'' [''--device'', ''dev-A'', ''test'', ''/tmp/maestro-mcp-AbC123/flow.yaml''] 180000,
        Spawn ''maestro'' [''--device'', ''dev-B'', ''test'', ''/tmp/maestro-mcp-AbC123/flow.yaml''] 180000,
        Settled 1,
        Rm ''/tmp/maestro-mcp-AbC123'']"
proof -
  let ?ids = "[''dev-A'', ''dev-B'']"
  let ?doc = "''appId: com.test.app'' @ [newline] @ ''---'' @ [newline]"
  let ?fp = "''/tmp/maestro-mcp-AbC123/flow.yaml''"
  let ?ps = "[Some (Inr \<lparr>stdout = ''OK'', stderr = [], exitCode = 0\<rparr>),
              Some (Inl (SystemError ''ERR_INVALID_ARG_VALUE''))] :: ExecResult promise list"
  have env: "tmpdir rejecting_env = ''/tmp''"
    "mkdtemp_env rejecting_env = (\<lambda>p. Inr ''AbC123'')"
    "writeFile_env rejecting_env = (\<lambda>p. None)"
    "settle_order rejecting_env = [1, 0]"
    "spawn_env rejecting_env = (\<lambda>i c a t.
        if i = 0 then Child [StdoutData ''OK'', CloseEvent (Some 0)]
        else SpawnThrows (SystemError ''ERR_INVALID_ARG_VALUE''))"
    by (simp_all add: rejecting_env_def two_devices_env_def demo_env_def)
  have h1: "buildYaml (stack_depth rejecting_env) ''com.test.app'' [] = Inr ?doc"
    by (simp add: buildYaml_def)
  have h2: "mkdtemp_env rejecting_env (path_join (tmpdir rejecting_env) ''maestro-mcp-'') = Inr ''AbC123''"
    by (simp add: env)
  have h3: "''/tmp/maestro-mcp-AbC123'' = path_join (tmpdir rejecting_env) ''maestro-mcp-'' @ ''AbC123''"
    by (simp add: env path_join_def)
  have h4: "?fp = path_join ''/tmp/maestro-mcp-AbC123'' ''flow.yaml''"
    by (simp add: path_join_def)
  have h5: "writeFile_env rejecting_env ?fp = None"
    by (simp add: env)
  have u: "[0 ..< length ?ids] = [0, Suc 0]"
    by (simp add: upt_conv_Cons)
  have h7: "?ps = map (\<lambda>(j, d). execStream_settles (spawn_env rejecting_env j ''maestro''
                        (device_args (Some d) @ [''test'', ?fp]) 180000))
               (zip [0 ..< length ?ids] ?ids)"
    unfolding u by (simp add: env execStream_settles_def)
  have aw: "await_all ?ps [] (settle_order rejecting_env)
      = (RejectedWith (SystemError ''ERR_INVALID_ARG_VALUE''), [1])"
    by (simp add: env all_seen_def)
  show ?thesis
    unfolding executeStepsMultiDevice_unfold[OF h1 h2 h3 h4 h5 refl h7] aw
    by (simp add: empty_world_def device_args_def env path_join_def)
qed

text \<open>
  When the document is written and every invocation resolves, in whatever order: the
  children are all started, in the order of the device ids, before any of them settles;
  the mapping returned has the given device ids other than \<open>__proto__\<close> as keys and
  maps each to the result of the last invocation for that id, whatever the exit codes;
  and the directory is removed once, after the last invocation has settled.
\<close>

lemma multi_device_join:
  assumes "buildYaml (stack_depth env) appId steps = Inr doc"
    and "mkdtemp_env env (path_join (tmpdir env) ''maestro-mcp-'') = Inr rnd"
    and "dir = path_join (tmpdir env) ''maestro-mcp-'' @ rnd"
    and "flowPath = path_join dir ''flow.yaml''"
    and "writeFile_env env flowPath = None"
    and "length rs = length deviceIds"
    and "\<forall>j<length deviceIds.
           execStream_settles (spawn_env env j ''maestro''
             (device_args (Some (deviceIds ! j)) @ [''test'', flowPath]) timeoutMs) = Some (Inr (rs ! j))"
    and "distinct (settle_order env)"
    and "set (settle_order env) = {..<length deviceIds}"
  shows "(\<exists>res. fst (executeStepsMultiDevice env appId steps deviceIds timeoutMs w) = Some (Inr res) \<and>
            multi_yaml res = doc \<and>
            dom (results res) = set deviceIds - {''__proto__''} \<and>
            (\<forall>j<length deviceIds.
               deviceIds ! j \<noteq> ''__proto__'' \<and> deviceIds ! j \<notin> set (drop (Suc j) deviceIds) \<longrightarrow>
               results res (deviceIds ! j) = Some (rs ! j))) \<and>
         trace (snd (executeStepsMultiDevice env appId steps deviceIds timeoutMs w))
           = trace w @ [Mkdtemp (path_join (tmpdir env) ''maestro-mcp-''), WriteFile flowPath doc]
             @ map (\<lambda>d. Spawn ''maestro'' (device_args (Some d) @ [''test'', flowPath]) timeoutMs) deviceIds
             @ map Settled (settle_order env) @ [Rm dir] \<and>
         (rm_env env dir = None \<longrightarrow>
            dir \<notin> dirs (snd (executeStepsMultiDevice env appId steps deviceIds timeoutMs w)))"
proof -
  let ?ps = "map (\<lambda>(j, d). execStream_settles (spawn_env env j ''maestro''
                        (device_args (Some d) @ [''test'', flowPath]) timeoutMs))
               (zip [0 ..< length deviceIds] deviceIds)"
  let ?w3 = "w\<lparr>dirs := insert dir (dirs w), files := (files w)(flowPath \<mapsto> doc),
              trace := trace w @ [Mkdtemp (path_join (tmpdir env) ''maestro-mcp-''), WriteFile flowPath doc]
                @ map (\<lambda>d. Spawn ''maestro'' (device_args (Some d) @ [''test'', flowPath]) timeoutMs) deviceIds\<rparr>"
  let ?res = "\<lparr>multi_yaml = doc, results = collect (zip deviceIds rs) Map.empty\<rparr>"
  have ps: "?ps = map (\<lambda>r. Some (Inr r)) rs"
  proof (rule nth_equalityI)
    show "length ?ps = length (map (\<lambda>r. Some (Inr r)) rs)"
      using assms(6) by simp
  next
    fix j assume "j < length ?ps"
    then have j: "j < length deviceIds" by simp
    then have "?ps ! j = execStream_settles (spawn_env env j ''maestro''
              (device_args (Some (deviceIds ! j)) @ [''test'', flowPath]) timeoutMs)"
      by simp
    also have "\<dots> = Some (Inr (rs ! j))" using assms(7) j by blast
    finally show "?ps ! j = map (\<lambda>r. Some (Inr r)) rs ! j"
      using j assms(6) by simp
  qed
  have len: "length ?ps = length deviceIds" by simp
  have aw: "await_all ?ps [] (settle_order env) = (FulfilledWith rs, [] @ settle_order env)"
    using assms(8,9) by (intro await_all_fulfilled[OF ps]) (simp_all only: len append_Nil)
  have run: "executeStepsMultiDevice env appId steps deviceIds timeoutMs w
      = (Some (Inr ?res), snd (rm env dir (settle (settle_order env) ?w3)))"
    unfolding executeStepsMultiDevice_unfold[OF assms(1-5) refl refl] aw by simp
  have "fst ` set (zip deviceIds rs) = set (map fst (zip deviceIds rs))" by simp
  also have "\<dots> = set deviceIds" using assms(6) by (simp only: map_fst_zip)
  finally have dom: "dom (results ?res) = set deviceIds - {''__proto__''}"
    by (simp add: dom_collect)
  have each: "results ?res (deviceIds ! j) = Some (rs ! j)"
    if "j < length deviceIds" "deviceIds ! j \<noteq> ''__proto__''"
      "deviceIds ! j \<notin> set (drop (Suc j) deviceIds)" for j
    using collect_last[OF assms(6)[symmetric] that] by simp
  have tr: "trace (snd (rm env dir (settle (settle_order env) ?w3)))
      = trace w @ [Mkdtemp (path_join (tmpdir env) ''maestro-mcp-''), WriteFile flowPath doc]
        @ map (\<lambda>d. Spawn ''maestro'' (device_args (Some d) @ [''test'', flowPath]) timeoutMs) deviceIds
        @ map Settled (settle_order env) @ [Rm dir]"
    by simp
  have gone: "dir \<notin> dirs (snd (rm env dir (settle (settle_order env) ?w3)))"
    if "rm_env env dir = None"
    using that by (rule dirs_rm)
  have "\<exists>res. fst (executeStepsMultiDevice env appId steps deviceIds timeoutMs w) = Some (Inr res) \<and>
            multi_yaml res = doc \<and>
            dom (results res) = set deviceIds - {''__proto__''} \<and>
            (\<forall>j<length deviceIds.
               deviceIds ! j \<noteq> ''__proto__'' \<and> deviceIds ! j \<notin> set (drop (Suc j) deviceIds) \<longrightarrow>
               results res (deviceIds ! j) = Some (rs ! j))"
    unfolding run using dom each by (intro exI[of _ ?res]) simp
  then show ?thesis
    unfolding run using tr gone by simp
qed

text \<open>Two devices, one exiting with 0 and one with 1.\<close>

lemma multi_device_join_example:
  "(\<exists>res. fst (executeStepsMultiDevice two_devices_env ''com.test.app'' []
              [''dev-A'', ''dev-B''] 180000 empty_world) = Some (Inr res) \<and>
      dom (results res) = {''dev-A'', ''dev-B''} \<and>
      results res ''dev-A'' = Some \<lparr>stdout = ''OK'', stderr = [], exitCode = 0\<rparr> \<and>
      results res ''dev-B'' = Some \<lparr>stdout = [], stderr = ''Failed'', exitCode = 1\<rparr>) \<and>
   trace (snd (executeStepsMultiDevice two_devices_env ''com.test.app'' []
              [''dev-A'', ''dev-B''] 180000 empty_world))
     = [Mkdtemp ''/tmp/maestro-mcp-'',
        WriteFile ''/tmp/maestro-mcp-AbC123/flow.yaml''
          (''appId: com.test.app'' @ [newline] @ ''---'' @ [newline]),
        Spawn ''maestro'' [''--device'', ''dev-A'', ''test'', ''/tmp/maestro-mcp-AbC123/flow.yaml''] 180000,
        Spawn ''maestro'' [''--device'', ''dev-B'', ''test'', ''/tmp/maestro-mcp-AbC123/flow.yaml''] 180000,
        Settled 1, Settled 0,
        Rm ''/tmp/maestro-mcp-AbC123''] \<and>
   ''/tmp/maestro-mcp-AbC123''
     \<notin> dirs (snd (executeStepsMultiDevice two_devices_env ''com.test.app'' []
                     [''dev-A'', ''dev-B''] 180000 empty_world))"
proof -
  let ?ids = "[''dev-A'', ''dev-B'']"
  let ?rs = "[\<lparr>stdout = ''OK'', stderr = [], exitCode = 0\<rparr>,
              \<lparr>stdout = [], stderr = ''Failed'', exitCode = 1\<rparr>]"
  let ?doc = "''appId: com.test.app'' @ [newline] @ ''---'' @ [newline]"
  have h1: "buildYaml (stack_depth two_devices_env) ''com.test.app'' [] = Inr ?doc"
    by (simp add: buildYaml_def)
  have h2: "mkdtemp_env two_devices_env (path_join (tmpdir two_devices_env) ''maestro-mcp-'') = Inr ''AbC123''"
    by (simp add: two_devices_env_def demo_env_def)
  have h3: "''/tmp/maestro-mcp-AbC123'' = path_join (tmpdir two_devices_env) ''maestro-mcp-'' @ ''AbC123''"
    by (simp add: two_devices_env_def demo_env_def path_join_def)
  have h4: "''/tmp/maestro-mcp-AbC123/flow.yaml'' = path_join ''/tmp/maestro-mcp-AbC123'' ''flow.yaml''"
    by (simp add: path_join_def)
  have h5: "writeFile_env two_devices_env ''/tmp/maestro-mcp-AbC123/flow.yaml'' = None"
    by (simp add: two_devices_env_def demo_env_def)
  have h6: "length ?rs = length ?ids" by simp
  have h7: "\<forall>j<length ?ids.
           execStream_settles (spawn_env two_devices_env j ''maestro''
             (device_args (Some (?ids ! j)) @ [''test'', ''/tmp/maestro-mcp-AbC123/flow.yaml'']) 180000)
             = Some (Inr (?rs ! j))"
    by (simp add: two_devices_env_def demo_env_def execStream_settles_def less_Suc_eq)
  have h8: "distinct (settle_order two_devices_env)"
    by (simp add: two_devices_env_def demo_env_def)
  have h9: "set (settle_order two_devices_env) = {..<length ?ids}"
    by (auto simp: two_devices_env_def demo_env_def)
  have h10: "rm_env two_devices_env ''/tmp/maestro-mcp-AbC123'' = None"
    by (simp add: two_devices_env_def demo_env_def)
  have o: "settle_order two_devices_env = [1, 0]"
    by (simp add: two_devices_env_def demo_env_def)
  note m = multi_device_join[OF h1 h2 h3 h4 h5 h6 h7 h8 h9, of empty_world]
  from m obtain res where res:
    "fst (executeStepsMultiDevice two_devices_env ''com.test.app'' [] ?ids 180000 empty_world) = Some (Inr res)"
    "dom (results res) = set ?ids - {''__proto__''}"
    "\<forall>j<length ?ids. ?ids ! j \<noteq> ''__proto__'' \<and> ?ids ! j \<notin> set (drop (Suc j) ?ids)
        \<longrightarrow> results res (?ids ! j) = Some (?rs ! j)"
    by blast
  note each = res(3)[rule_format]
  have "results res ''dev-A'' = Some \<lparr>stdout = ''OK'', stderr = [], exitCode = 0\<rparr>"
    using each[of 0] by simp
  moreover have "results res ''dev-B'' = Some \<lparr>stdout = [], stderr = ''Failed'', exitCode = 1\<rparr>"
    using each[of 1] by simp
  moreover have "dom (results res) = {''dev-A'', ''dev-B''}"
    using res(2) by simp
  ultimately have
    "\<exists>res. fst (executeStepsMultiDevice two_devices_env ''com.test.app'' [] ?ids 180000 empty_world)
        = Some (Inr res) \<and>
      dom (results res) = {''dev-A'', ''dev-B''} \<and>
      results res ''dev-A'' = Some \<lparr>stdout = ''OK'', stderr = [], exitCode = 0\<rparr> \<and>
      results res ''dev-B'' = Some \<lparr>stdout = [], stderr = ''Failed'', exitCode = 1\<rparr>"
    using res(1) by blast
  moreover have "trace (snd (executeStepsMultiDevice two_devices_env ''com.test.app'' [] ?ids 180000 empty_world))
     = [Mkdtemp ''/tmp/maestro-mcp-'',
        WriteFile ''/tmp/maestro-mcp-AbC123/flow.yaml'' ?doc,
        Spawn ''maestro'' [''--device'', ''dev-A'', ''test'', ''/tmp/maestro-mcp-AbC123/flow.yaml''] 180000,
        Spawn ''maestro'' [''--device'', ''dev-B'', ''test'', ''/tmp/maestro-mcp-AbC123/flow.yaml''] 180000,
        Settled 1, Settled 0,
        Rm ''/tmp/maestro-mcp-AbC123'']"
    using m[THEN conjunct2, THEN conjunct1]
    by (simp add: o empty_world_def device_args_def path_join_def two_devices_env_def demo_env_def)
  moreover have "''/tmp/maestro-mcp-AbC123''
     \<notin> dirs (snd (executeStepsMultiDevice two_devices_env ''com.test.app'' [] ?ids 180000 empty_world))"
    using m[THEN conjunct2, THEN conjunct2] h10 by simp
  ultimately show ?thesis by blast
qed

text \<open>
  A device named \<open>__proto__\<close> gets no entry: of two devices the mapping holds one.
\<close>

lemma multi_device_proto_example:
  "\<exists>res. fst (executeStepsMultiDevice two_devices_env ''com.test.app'' []
              [''__proto__'', ''dev-B''] 180000 empty_world) = Some (Inr res) \<and>
      dom (results res) = {''dev-B''}"
proof -
  let ?ids = "[''__proto__'', ''dev-B'']"
  let ?rs = "[\<lparr>stdout = ''OK'', stderr = [], exitCode = 0\<rparr>,
              \<lparr>stdout = [], stderr = ''Failed'', exitCode = 1\<rparr>]"
  let ?doc = "''appId: com.test.app'' @ [newline] @ ''---'' @ [newline]"
  have h1: "buildYaml (stack_depth two_devices_env) ''com.test.app'' [] = Inr ?doc"
    by (simp add: buildYaml_def)
  have h2: "mkdtemp_env two_devices_env (path_join (tmpdir two_devices_env) ''maestro-mcp-'') = Inr ''AbC123''"
    by (simp add: two_devices_env_def demo_env_def)
  have h3: "''/tmp/maestro-mcp-AbC123'' = path_join (tmpdir two_devices_env) ''maestro-mcp-'' @ ''AbC123''"
    by (simp add: two_devices_env_def demo_env_def path_join_def)
  have h4: "''/tmp/maestro-mcp-AbC123/flow.yaml'' = path_join ''/tmp/maestro-mcp-AbC123'' ''flow.yaml''"
    by (simp add: path_join_def)
  have h5: "writeFile_env two_devices_env ''/tmp/maestro-mcp-AbC123/flow.yaml'' = None"
    by (simp add: two_devices_env_def demo_env_def)
  have h6: "length ?rs = length ?ids" by simp
  have h7: "\<forall>j<length ?ids.
           execStream_settles (spawn_env two_devices_env j ''maestro''
             (device_args (Some (?ids ! j)) @ [''test'', ''/tmp/maestro-mcp-AbC123/flow.yaml'']) 180000)
             = Some (Inr (?rs ! j))"
    by (simp add: two_devices_env_def demo_env_def execStream_settles_def less_Suc_eq)
  have h8: "distinct (settle_order two_devices_env)"
    by (simp add: two_devices_env_def demo_env_def)
  have h9: "set (settle_order two_devices_env) = {..<length ?ids}"
    by (auto simp: two_devices_env_def demo_env_def)
  note m = multi_device_join[OF h1 h2 h3 h4 h5 h6 h7 h8 h9, of empty_world]
  from m obtain res where res:
    "fst (executeStepsMultiDevice two_devices_env ''com.test.app'' [] ?ids 180000 empty_world) = Some (Inr res)"
    "dom (results res) = set ?ids - {''__proto__''}"
    by blast
  have "dom (results res) = {''dev-B''}"
    using res(2) by simp
  then show ?thesis using res(1) by blast
qed

section \<open>Properties of the device inventory\<close>

lemma listDevices_result:
  "fst (listDevices env w) =
     Some (Inr \<lparr>android = platform_list parse_android (execFile_env env ''adb'' [''devices''] 120000),
                ios = platform_list (parse_ios env)
                        (execFile_env env ''xcrun'' [''simctl'', ''list'', ''devices'', ''--json''] 120000)\<rparr>)"
  by (cases "execFile_env env ''adb'' [''devices''] 120000";
      cases "execFile_env env ''xcrun'' [''simctl'', ''list'', ''devices'', ''--json''] 120000")
     (simp_all add: listDevices_def exec_def caught_def platform_list_def)

lemma push_devices_only:
  "d \<in> set (snd (push_devices runtime ds acc)) \<Longrightarrow>
   d \<in> set acc \<or>
   (\<exists>device a. device \<in> set ds \<and> get_prop device ''isAvailable'' = Inr a \<and> a \<noteq> JBool False \<and>
      make_ios runtime device = Inr d)"
proof (induction ds arbitrary: acc)
  case Nil
  then show ?case by simp
next
  case (Cons device rest)
  show ?case
  proof (cases "get_prop device ''isAvailable''")
    case (Inl e)
    then show ?thesis using Cons.prems by simp
  next
    case (Inr a)
    show ?thesis
    proof (cases "a \<noteq> JBool False")
      case False
      then have "d \<in> set (snd (push_devices runtime rest acc))"
        using Cons.prems Inr by simp
      from Cons.IH[OF this] show ?thesis by auto
    next
      case True
      show ?thesis
      proof (cases "make_ios runtime device")
        case (Inl e)
        then show ?thesis using Cons.prems Inr True by simp
      next
        case (Inr x)
        then have "d \<in> set (snd (push_devices runtime rest (acc @ [x])))"
          using Cons.prems \<open>get_prop device ''isAvailable'' = Inr a\<close> True by simp
        from Cons.IH[OF this] show ?thesis
          using Inr \<open>get_prop device ''isAvailable'' = Inr a\<close> True by auto
      qed
    qed
  qed
qed

lemma push_runtimes_only:
  "d \<in> set (snd (push_runtimes devices rs acc)) \<Longrightarrow>
   d \<in> set acc \<or>
   (\<exists>runtime member ds device a.
      runtime \<in> set rs \<and> get_prop devices runtime = Inr member \<and> iterate member = Inr ds \<and>
      device \<in> set ds \<and> get_prop device ''isAvailable'' = Inr a \<and> a \<noteq> JBool False \<and>
      make_ios runtime device = Inr d)"
proof (induction rs arbitrary: acc)
  case Nil
  then show ?case by simp
next
  case (Cons runtime rest)
  show ?case
  proof (cases "get_prop devices runtime")
    case (Inl e)
    then show ?thesis using Cons.prems by simp
  next
    case member: (Inr member)
    show ?thesis
    proof (cases "iterate member")
      case (Inl e)
      then show ?thesis using Cons.prems member by simp
    next
      case ds: (Inr ds)
      obtain err acc' where pd: "push_devices runtime ds acc = (err, acc')"
        by (cases "push_devices runtime ds acc")
      have here: "x \<in> set acc' \<Longrightarrow> x \<in> set acc \<or>
          (\<exists>device a. device \<in> set ds \<and> get_prop device ''isAvailable'' = Inr a \<and> a \<noteq> JBool False \<and>
             make_ios runtime device = Inr x)" for x
        using push_devices_only[of x runtime ds acc] pd by simp
      show ?thesis
      proof (cases err)
        case (Some e)
        then have "d \<in> set acc'" using Cons.prems member ds pd by simp
        from here[OF this] show ?thesis using member ds
          by (meson list.set_intros(1))
      next
        case None
        then have "d \<in> set (snd (push_runtimes devices rest acc'))"
          using Cons.prems member ds pd by simp
        from Cons.IH[OF this] show ?thesis
        proof
          assume "d \<in> set acc'"
          from here[OF this] show ?thesis using member ds
            by (meson list.set_intros(1))
        next
          assume "\<exists>runtime member ds device a.
            runtime \<in> set rest \<and> get_prop devices runtime = Inr member \<and> iterate member = Inr ds \<and>
            device \<in> set ds \<and> get_prop device ''isAvailable'' = Inr a \<and> a \<noteq> JBool False \<and>
            make_ios runtime device = Inr d"
          then show ?thesis by (meson list.set_intros(2))
        qed
      qed
    qed
  qed
qed

lemma parse_ios_only:
  assumes "d \<in> set (parse_ios env out)"
  shows "\<exists>data dv devices runtime member ds device a.
      JSON_parse env out = Inr data \<and> get_prop data ''devices'' = Inr dv \<and>
      devices = (if truthy dv then dv else JObj []) \<and>
      runtime \<in> set (Object_keys devices) \<and> get_prop devices runtime = Inr member \<and>
      iterate member = Inr ds \<and> device \<in> set ds \<and>
      get_prop device ''isAvailable'' = Inr a \<and> a \<noteq> JBool False \<and>
      make_ios runtime device = Inr d"
proof (cases "JSON_parse env out")
  case (Inl e)
  then show ?thesis using assms by (simp add: parse_ios_def)
next
  case data: (Inr data)
  show ?thesis
  proof (cases "get_prop data ''devices''")
    case (Inl e)
    then show ?thesis using assms data by (simp add: parse_ios_def)
  next
    case dv: (Inr dv)
    let ?devices = "if truthy dv then dv else JObj []"
    have "d \<in> set (snd (push_runtimes ?devices (Object_keys ?devices) []))"
      using assms data dv by (simp add: parse_ios_def Let_def)
    from push_runtimes_only[OF this] show ?thesis
      using data dv by auto
  qed
qed


lemma lower_char_plus_32: "is_upper c \<Longrightarrow> of_char (lower_char c) = (of_char c :: nat) + 32"
proof (cases c)
  case (Char b0 b1 b2 b3 b4 b5 b6 b7)
  assume "is_upper c"
  then show ?thesis
    unfolding Char
    by (cases b5; cases b6; cases b7; cases b4; cases b3)
       (simp_all add: lower_char_def is_upper_def, (cases b0; cases b1; cases b2; simp)+)
qed

text \<open>
  C8. \<open>listDevices\<close> always resolves, and the list of each platform is determined by
  what its own command did: it is empty when that command threw or ended with a non-zero
  exit code. Every entry of the iOS list comes from a device entry under a runtime key
  whose \<open>isAvailable\<close> is not \<open>false\<close>, and a text that \<^verbatim>\<open>JSON.parse\<close> rejects
  gives the empty list.
\<close>

theorem listDevices_isolated:
  "fst (listDevices env w) =
     Some (Inr \<lparr>android = platform_list parse_android (execFile_env env ''adb'' [''devices''] 120000),
                ios = platform_list (parse_ios env)
                        (execFile_env env ''xcrun'' [''simctl'', ''list'', ''devices'', ''--json''] 120000)\<rparr>) \<and>
   platform_list parse (ExecFileThrows e) = [] \<and>
   (exitCode (exec_callback err out errout) \<noteq> 0 \<longrightarrow> platform_list parse (Callback err out errout) = []) \<and>
   (d \<in> set (parse_ios env json) \<longrightarrow>
      (\<exists>data dv devices runtime member ds device a.
         JSON_parse env json = Inr data \<and> get_prop data ''devices'' = Inr dv \<and>
         devices = (if truthy dv then dv else JObj []) \<and>
         runtime \<in> set (Object_keys devices) \<and> get_prop devices runtime = Inr member \<and>
         iterate member = Inr ds \<and> device \<in> set ds \<and>
         get_prop device ''isAvailable'' = Inr a \<and> a \<noteq> JBool False \<and>
         make_ios runtime device = Inr d)) \<and>
   (JSON_parse env junk = Inl e' \<longrightarrow> parse_ios env junk = [])"
proof (intro conjI impI)
  show "fst (listDevices env w) =
     Some (Inr \<lparr>android = platform_list parse_android (execFile_env env ''adb'' [''devices''] 120000),
                ios = platform_list (parse_ios env)
                        (execFile_env env ''xcrun'' [''simctl'', ''list'', ''devices'', ''--json''] 120000)\<rparr>)"
    by (rule listDevices_result)
next
  assume "d \<in> set (parse_ios env json)"
  then show "\<exists>data dv devices runtime member ds device a.
         JSON_parse env json = Inr data \<and> get_prop data ''devices'' = Inr dv \<and>
         devices = (if truthy dv then dv else JObj []) \<and>
         runtime \<in> set (Object_keys devices) \<and> get_prop devices runtime = Inr member \<and>
         iterate member = Inr ds \<and> device \<in> set ds \<and>
         get_prop device ''isAvailable'' = Inr a \<and> a \<noteq> JBool False \<and>
         make_ios runtime device = Inr d"
    by (rule parse_ios_only)
qed (simp_all add: platform_list_def parse_ios_def)

text \<open>A failing \<open>adb\<close> beside a working \<open>xcrun\<close>, and a text that does not parse.\<close>

theorem listDevices_isolated_witness:
  "fst (listDevices inventory_env empty_world) =
     Some (Inr \<lparr>android = [],
                ios = [\<lparr>ios_id = JStr ''5B6D77EF'', ios_name = ''iPhone 16 (iOS-17-5)'',
                        ios_status = ''booted''\<rparr>]\<rparr>) \<and>
   parse_ios inventory_env ''not-json{{{'' = [] \<and>
   \<lparr>ios_id = JStr ''DEAD0000'', ios_name = ''iPhone SE (iOS-17-5)'', ios_status = ''shutdown''\<rparr>
     \<notin> set (parse_ios inventory_env ''simctl.json'')"
proof -
  let ?fail = "Some \<lparr>err_message = ''not found'', err_code = NumCode 1\<rparr>"
  have adb: "execFile_env inventory_env ''adb'' [''devices''] 120000 = Callback ?fail (Some []) (Some [])"
    by (simp add: inventory_env_def)
  have xcrun: "execFile_env inventory_env ''xcrun'' [''simctl'', ''list'', ''devices'', ''--json''] 120000
      = Callback None (Some ''simctl.json'') (Some [])"
    by (simp add: inventory_env_def)
  have h1: "exitCode (exec_callback ?fail (Some []) (Some [])) \<noteq> 0"
    by (simp add: exec_callback_def)
  have h2: "JSON_parse inventory_env ''not-json{{{'' = Inl SyntaxError"
    by (simp add: inventory_env_def)
  have ios: "parse_ios inventory_env ''simctl.json''
      = [\<lparr>ios_id = JStr ''5B6D77EF'', ios_name = ''iPhone 16 (iOS-17-5)'', ios_status = ''booted''\<rparr>]"
    by (simp add: parse_ios_def inventory_env_def simctl_value_def get_prop_def truthy_def
        Object_keys_def make_ios_def device_status_def toLowerCase_def lower_char_def is_upper_def)
  note t = listDevices_isolated[where env = inventory_env and w = empty_world
      and parse = parse_android and err = ?fail and out = "Some []" and errout = "Some []"
      and junk = "''not-json{{{''" and e' = SyntaxError and json = "''simctl.json''"
      and d = "\<lparr>ios_id = JStr ''DEAD0000'', ios_name = ''iPhone SE (iOS-17-5)'', ios_status = ''shutdown''\<rparr>"]
  have a0: "platform_list parse_android (Callback ?fail (Some []) (Some [])) = []"
    using t h1 by blast
  have i0: "platform_list (parse_ios inventory_env) (Callback None (Some ''simctl.json'') (Some []))
      = parse_ios inventory_env ''simctl.json''"
    by (simp add: platform_list_def exec_callback_def or_empty_def)
  have "fst (listDevices inventory_env empty_world) =
     Some (Inr \<lparr>android = [],
                ios = [\<lparr>ios_id = JStr ''5B6D77EF'', ios_name = ''iPhone 16 (iOS-17-5)'',
                        ios_status = ''booted''\<rparr>]\<rparr>)"
    using t[THEN conjunct1] unfolding adb xcrun a0 i0 ios .
  moreover have "parse_ios inventory_env ''not-json{{{'' = []"
    using t h2 by blast
  moreover have "\<lparr>ios_id = JStr ''DEAD0000'', ios_name = ''iPhone SE (iOS-17-5)'', ios_status = ''shutdown''\<rparr>
     \<notin> set (parse_ios inventory_env ''simctl.json'')"
    unfolding ios by simp
  ultimately show ?thesis by blast
qed

end
